theory Spec2Isabelle
  imports Main "HOL-Library.Word" "HOL-Library.AList"
begin

unbundle bit_operations_syntax

section \<open>The protocol engine of lib/protocol/index.js\<close>

text \<open>
  A shallow embedding of \<^verbatim>\<open>src/lib/protocol/index.js\<close>: the file-name parser, the
  definition registry with its loaders, the identifier resolver and the codec invoker
  that works on two scratch buffers.

  Conventions of the embedding:
  \<^item> a thrown exception is the \<open>Inl\<close> of a result; a method of the engine takes the
    engine and returns the result together with the engine as the call leaves it, since
    a throw does not undo the assignments made before it;
  \<^item> a JavaScript \<open>Map\<close> is an association list in insertion order (\<open>map_of\<close> reads it,
    \<open>AList.update\<close> is \<open>set\<close>); a plain object used as a dictionary is a map
    \<open>'k \<rightharpoonup> 'v\<close>. Keys that collide with members of \<open>Object.prototype\<close> are outside
    the model;
  \<^item> numbers are integers (\<open>int\<close>); \<open>-Infinity\<close>, which \<open>Math.max()\<close> of no argument
    returns, is a value of its own. Fractions and \<open>NaN\<close> are outside the model, and a
    digit string is read exactly however long it is;
  \<^item> the collaborators that are not part of the file (the definition parser, the
    compiler, the module loader, the directory listing, the base64 decoder, the compiled
    reader, writer and cloner of a definition) are parameters; each of them may throw;
  \<^item> the logger is a list of entries the engine appends to.
\<close>

subsection \<open>Values\<close>

type_synonym byte = "8 word"

text \<open>Structured data handed to a writer or returned by a reader.\<close>

datatype jsval =
    JUndefined
  | JNull
  | JBool bool
  | JNum int
  | JStr string
  | JArr "jsval list"
  | JObj "(string \<times> jsval) list"

text \<open>Truthiness, as \<open>data || {}\<close> tests it.\<close>

fun truthy :: "jsval \<Rightarrow> bool" where
  "truthy JUndefined = False"
| "truthy JNull = False"
| "truthy (JBool b) = b"
| "truthy (JNum n) = (n \<noteq> 0)"
| "truthy (JStr s) = (s \<noteq> [])"
| "truthy (JArr xs) = True"
| "truthy (JObj kvs) = True"

text \<open>A number, or the \<open>-Infinity\<close> that \<open>Math.max()\<close> gives for an empty list of keys.\<close>

datatype jsnum = NegInfinity | Num int

fun num_truthy :: "jsnum \<Rightarrow> bool" where
  "num_truthy NegInfinity = True"
| "num_truthy (Num n) = (n \<noteq> 0)"

fun num_less :: "jsnum \<Rightarrow> jsnum \<Rightarrow> bool" where
  "num_less NegInfinity (Num b) = True"
| "num_less (Num a) (Num b) = (a < b)"
| "num_less a NegInfinity = False"

fun num_max :: "jsnum \<Rightarrow> jsnum \<Rightarrow> jsnum" where
  "num_max NegInfinity b = b"
| "num_max a NegInfinity = a"
| "num_max (Num a) (Num b) = Num (max a b)"

text \<open>\<open>Math.max(...keys)\<close>: the fold starts from \<open>-Infinity\<close>.\<close>

definition Math_max :: "int list \<Rightarrow> jsnum" where
  "Math_max ks = foldl (\<lambda>acc k. num_max acc (Num k)) NegInfinity ks"

subsection \<open>Errors and log entries\<close>

text \<open>
  One constructor for each \<open>throw\<close> of the file, one for each exception the runtime
  raises on the file's own expressions (a property read on \<open>null\<close> or \<open>undefined\<close>, a
  call of something that is not a function, \<open>Buffer.allocUnsafe\<close> of a negative size,
  a \<open>DataView\<close> access outside the view), and \<open>Thrown\<close> for an exception that comes
  out of a collaborator.
\<close>

text \<open>
  The two arguments of \<open>resolveIdentifier\<close>: an identifier is a string, a number or
  something else; the version is the default \<open>'*'\<close> or a number.
\<close>

datatype ident = IdString string | IdNumber int | IdOther

datatype version_request = Latest | Exact int

datatype error =
    InvalidPlatform
  | PropertyOfNullish
  | NotAFunction
  | RangeError
  | IdentifierTypeError
  | CodeNotKnown string
  | MappingNotFound int
  | VersionOutdated jsnum string int
  | NoDefinitionFound string int version_request
  | DeprecatedForReading jsnum string int
  | DeprecatedForWriting jsnum string int
  | Thrown string

text \<open>The error classes of the specification's taxonomy.\<close>

fun is_Outdated :: "error \<Rightarrow> bool" where
  "is_Outdated (VersionOutdated v n c) = True"
| "is_Outdated e = False"

fun is_NotFound :: "error \<Rightarrow> bool" where
  "is_NotFound (CodeNotKnown n) = True"
| "is_NotFound (MappingNotFound c) = True"
| "is_NotFound (NoDefinitionFound n c v) = True"
| "is_NotFound e = False"

fun is_Deprecated :: "error \<Rightarrow> bool" where
  "is_Deprecated (DeprecatedForReading v n c) = True"
| "is_Deprecated (DeprecatedForWriting v n c) = True"
| "is_Deprecated e = False"

datatype log_entry =
    WarnInvalidFilename string
  | DebugSkippingPath string
  | ErrorCompiling string int string
  | DebugSkippedOutdated string int

subsection \<open>parseDefinitionFilename\<close>

text \<open>
  \<open>path.basename\<close> (POSIX): trailing separators are dropped, then the part after the
  last separator is kept.
\<close>

definition basename :: "string \<Rightarrow> string" where
  "basename p = rev (takeWhile (\<lambda>c. c \<noteq> CHR ''/'') (dropWhile (\<lambda>c. c = CHR ''/'') (rev p)))"

text \<open>Characters are compared by their codes.\<close>

definition char_code :: "char \<Rightarrow> nat" where
  "char_code c = of_char c"

definition is_digit :: "char \<Rightarrow> bool" where
  "is_digit c = (char_code CHR ''0'' \<le> char_code c \<and> char_code c \<le> char_code CHR ''9'')"

text \<open>The class \<open>\w\<close>: ASCII letters, digits and the underscore.\<close>

definition is_word_char :: "char \<Rightarrow> bool" where
  "is_word_char c =
     ((char_code CHR ''a'' \<le> char_code c \<and> char_code c \<le> char_code CHR ''z'')
      \<or> (char_code CHR ''A'' \<le> char_code c \<and> char_code c \<le> char_code CHR ''Z'')
      \<or> is_digit c \<or> c = CHR ''_'')"

text \<open>\<open>\w+\<close> and \<open>\d+\<close> against a whole segment.\<close>

definition word_plus :: "string \<Rightarrow> bool" where
  "word_plus s = (s \<noteq> [] \<and> list_all is_word_char s)"

definition digit_plus :: "string \<Rightarrow> bool" where
  "digit_plus s = (s \<noteq> [] \<and> list_all is_digit s)"

text \<open>The segments of a string between its dots.\<close>

fun split_dots :: "string \<Rightarrow> string list" where
  "split_dots [] = [[]]"
| "split_dots (c # cs) =
     (if c = CHR ''.'' then [] # split_dots cs
      else (case split_dots cs of [] \<Rightarrow> [[c]] | s # ss \<Rightarrow> (c # s) # ss))"

text \<open>
  \<open>parseInt(s, 10)\<close> on a string of digits. The result is a Number, a double: the
  integer that the digits denote when it is below \<open>2 ^ 53\<close>, and else the double nearest
  to it, the one with the even significand when two are equally near. \<open>to_double\<close>
  rounds an integer that way: \<open>bit_length n - 53\<close> low bits are rounded away. The
  doubles end below \<open>2 ^ 1024\<close>: digits that round to \<open>2 ^ 1024\<close> or more (309 digits
  at least) are read by \<open>parseInt\<close> as \<open>Infinity\<close>. The versions of this model are
  integers, and \<open>2 ^ 1024\<close> stands for \<open>Infinity\<close> among them: the code compares
  versions, takes the least and the greatest of them and uses them as keys, and in all
  of this the least integer above every double is to the doubles what \<open>Infinity\<close> is.
\<close>

definition digit_value :: "char \<Rightarrow> int" where
  "digit_value c = int (char_code c) - 48"

function bit_length :: "int \<Rightarrow> nat" where
  "bit_length n = (if n \<le> 0 then 0 else Suc (bit_length (n div 2)))"
  by pat_completeness auto

termination bit_length
  by (relation "measure nat") auto

declare bit_length.simps [simp del]

definition to_double :: "int \<Rightarrow> int" where
  "to_double n =
     (if n < 2 ^ 53 then n
      else (let e = bit_length n - 53;
                q = n div 2 ^ e;
                r = n mod 2 ^ e;
                half = 2 ^ (e - 1);
                nearest = (if half < r \<or> (r = half \<and> odd q) then q + 1 else q) * 2 ^ e
            in if nearest < 2 ^ 1024 then nearest else 2 ^ 1024))"

definition parseInt10 :: "string \<Rightarrow> int" where
  "parseInt10 s = to_double (foldl (\<lambda>acc c. 10 * acc + digit_value c) 0 s)"

record parsedName =
  pn_name :: string
  pn_version :: int
  pn_platform :: "string option"
  pn_type :: string

text \<open>
  The match of \<open>/^(\w+)\.(\d+)(\.(\w+))?\.(def|js)$/\<close>. Neither \<open>\w\<close> nor \<open>\d\<close> matches
  a dot, so the expression matches exactly the strings whose segments between dots are
  three (name, version, extension) or four (name, version, platform, extension), each
  in its class; the groups are these segments.
\<close>

definition match_filename :: "string \<Rightarrow> parsedName option" where
  "match_filename s =
     (case split_dots s of
        [n, v, t] \<Rightarrow>
          (if word_plus n \<and> digit_plus v \<and> (t = ''def'' \<or> t = ''js'')
           then Some \<lparr>pn_name = n, pn_version = parseInt10 v, pn_platform = None, pn_type = t\<rparr>
           else None)
      | [n, v, p, t] \<Rightarrow>
          (if word_plus n \<and> digit_plus v \<and> word_plus p \<and> (t = ''def'' \<or> t = ''js'')
           then Some \<lparr>pn_name = n, pn_version = parseInt10 v, pn_platform = Some p, pn_type = t\<rparr>
           else None)
      | _ \<Rightarrow> None)"

definition endsWith :: "string \<Rightarrow> string \<Rightarrow> bool" where
  "endsWith s suffix = (length suffix \<le> length s \<and> drop (length s - length suffix) s = suffix)"

text \<open>The function returns \<open>null\<close> (here \<open>None\<close>) after one log call, or the parsed name.\<close>

definition parseDefinitionFilename :: "string \<Rightarrow> log_entry list \<times> parsedName option" where
  "parseDefinitionFilename file =
     (case match_filename (basename file) of
        None \<Rightarrow>
          (if endsWith file ''.def'' \<or> endsWith file ''.js''
           then ([WarnInvalidFilename (basename file)], None)
           else ([DebugSkippingPath (basename file)], None))
      | Some parsed \<Rightarrow> ([], Some parsed))"

subsection \<open>Definitions and the collaborators\<close>

text \<open>
  A definition object. \<open>body\<close> stands for whatever structure the parser produced; the
  three routines are present once the definition is compiled (\<open>None\<close>: the property is
  not a function). A reader is called with a view over the read scratch buffer, given
  here by the bytes the view covers (\<open>None\<close> when it is called with \<open>undefined\<close>); it is
  taken to read through its view only, and neither routine reaches the rest of the
  buffer behind its view. A writer
  is called with the bytes of the write view and the data; it returns the bytes as it
  leaves them together with what it returns or throws. The two flags are assigned at
  registration; a definition that was never registered has them unset, which the
  tests \<open>!definition.readable\<close> and \<open>!definition.writeable\<close> read like \<open>false\<close>.

  Objects are values here: a definition object that a caller registers under two keys
  is one object in JavaScript and two equal values in the model. The flags that the
  second registration assigns show in both slots in JavaScript and in the second slot
  only in the model: what the model says of a registration holds for the slot that the
  registration names.
\<close>

record defn =
  body :: string
  reader :: "(byte list option \<Rightarrow> string + jsval) option"
  writer :: "(byte list \<Rightarrow> jsval \<Rightarrow> (string + int) \<times> byte list) option"
  cloner :: "(jsval \<Rightarrow> string + jsval) option"
  readable :: bool
  writeable :: bool

text \<open>
  What the file imports or calls and does not define. \<open>Inl\<close> is a thrown exception;
  a loader's \<open>Inr None\<close> is a result that is not truthy.
\<close>

record collaborators =
  compile :: "defn \<Rightarrow> string + defn"
  defParser :: "string \<Rightarrow> string option \<Rightarrow> string + defn option"
  evalModule :: "string \<Rightarrow> string \<Rightarrow> string + defn option"
  require :: "string \<Rightarrow> string + defn option"
  readdirSync :: "string \<Rightarrow> string + string list"
  base64_utf8 :: "string \<Rightarrow> string"

text \<open>
  \<open>requireStr\<close>: the data is a string by its type, so the \<open>throw\<close> of the first test
  has no input; the module is compiled and evaluated by the runtime.
\<close>

definition requireStr :: "collaborators \<Rightarrow> string \<Rightarrow> string \<Rightarrow> string + defn option" where
  "requireStr col data filename = evalModule col data filename"

subsection \<open>The engine\<close>

record deprecationEntry =
  dmin :: "int option"
  dmax :: "int option"
  dreadable :: "bool option"

record protocolMap =
  pm_name :: "string \<rightharpoonup> int"
  pm_code :: "int \<rightharpoonup> string"

text \<open>
  An address names an allocated \<open>ArrayBuffer\<close>: an index into the heap. Both scratch
  buffers are allocated with 65536 bytes, more than the allocator pools, so each has a
  buffer of its own and its \<open>byteOffset\<close> is 0; a view is the buffer and a length.
\<close>

type_synonym addr = nat

record dataview =
  dv_buffer :: addr
  dv_byteLength :: nat

text \<open>
  \<open>lowestDefaultDefVersions\<close> is a plain object, created by \<open>{}\<close>: a name that it has
  no property of its own for is looked up in \<open>Object.prototype\<close>. So a read of the
  table finds a version, \<open>NaN\<close>, or an inherited member: one of the functions of
  \<open>Object.prototype\<close>, or under \<open>__proto__\<close> the prototype itself. The table of the model
  holds the own properties.
\<close>

datatype lowest_entry = Version int | NotANumber | Inherited

definition Object_prototype_functions :: "string list" where
  "Object_prototype_functions =
     [''constructor'', ''hasOwnProperty'', ''isPrototypeOf'', ''propertyIsEnumerable'',
      ''toLocaleString'', ''toString'', ''valueOf'', ''__defineGetter__'',
      ''__defineSetter__'', ''__lookupGetter__'', ''__lookupSetter__'']"

text \<open>The read \<open>table[name]\<close>; \<open>None\<close> is \<open>undefined\<close>.\<close>

definition lowest_get :: "(string \<rightharpoonup> lowest_entry) \<Rightarrow> string \<Rightarrow> lowest_entry option" where
  "lowest_get table name =
     (if name = ''__proto__'' then Some Inherited
      else (case table name of
              Some own \<Rightarrow> Some own
            | None \<Rightarrow> if name \<in> set Object_prototype_functions then Some Inherited else None))"

text \<open>
  The assignment \<open>table[name] = value\<close> of a number. It sets a property of the table's
  own, except under \<open>__proto__\<close>: the setter that \<open>Object.prototype\<close> has for this name
  does nothing when the value is neither an object nor \<open>null\<close>.
\<close>

definition lowest_set ::
  "(string \<rightharpoonup> lowest_entry) \<Rightarrow> string \<Rightarrow> lowest_entry \<Rightarrow> (string \<rightharpoonup> lowest_entry)" where
  "lowest_set table name entry = (if name = ''__proto__'' then table else table(name \<mapsto> entry))"

text \<open>
  What the code does with an entry it has read: the truthiness test, \<open>Math.min\<close> with a
  version, and the comparison \<open>version < entry\<close>. A function or the prototype object is
  truthy and converts to the number \<open>NaN\<close>, which is below nothing and above nothing.
\<close>

fun entry_truthy :: "lowest_entry \<Rightarrow> bool" where
  "entry_truthy (Version n) = (n \<noteq> 0)"
| "entry_truthy NotANumber = False"
| "entry_truthy Inherited = True"

fun Math_min :: "lowest_entry \<Rightarrow> int \<Rightarrow> lowest_entry" where
  "Math_min (Version n) version = Version (min n version)"
| "Math_min NotANumber version = NotANumber"
| "Math_min Inherited version = NotANumber"

fun version_below :: "int \<Rightarrow> lowest_entry \<Rightarrow> bool" where
  "version_below version (Version n) = (version < n)"
| "version_below version NotANumber = False"
| "version_below version Inherited = False"

text \<open>
  The fields of a \<open>TeraProtocol\<close> object, then the two parts of the world around it that
  the methods change: the heap of byte buffers and the logger's output. The three tables
  that \<open>loadDefaultBundle\<close> assigns are \<open>None\<close> (\<open>undefined\<close>) before it has run.
\<close>

record engine =
  region :: string
  majorPatchVersion :: int
  minorPatchVersion :: int
  platform :: string
  protocolMap :: protocolMap
  messages :: "(string \<times> (int \<times> defn) list) list"
  readBuffer :: addr
  readViews :: "dataview list"
  writeBuffer :: addr
  writeView :: dataview
  loaded :: bool
  lowestDefaultDefVersions :: "(string \<rightharpoonup> lowest_entry) option"
  deprecationData :: "(string \<rightharpoonup> (int \<rightharpoonup> deprecationEntry)) option"
  defaultDefinitions :: "(string \<times> int) set option"
  heap :: "byte list list"
  logged :: "log_entry list"

text \<open>The entry of the registry for a name and a version: \<open>messages.get(name).get(version)\<close>.\<close>

definition registered :: "engine \<Rightarrow> string \<Rightarrow> int \<Rightarrow> defn option" where
  "registered e name version =
     (case map_of (messages e) name of None \<Rightarrow> None | Some versions \<Rightarrow> map_of versions version)"

subsection \<open>Registration\<close>

text \<open>\<open>!data.min\<close> and \<open>!data.max\<close>: the bound is missing or zero.\<close>

definition bound_falsy :: "int option \<Rightarrow> bool" where
  "bound_falsy b = (case b of None \<Rightarrow> True | Some n \<Rightarrow> n = 0)"

definition min_above :: "int option \<Rightarrow> int \<Rightarrow> bool" where
  "min_above b patch = (case b of None \<Rightarrow> False | Some n \<Rightarrow> n > patch)"

definition max_below :: "int option \<Rightarrow> int \<Rightarrow> bool" where
  "max_below b patch = (case b of None \<Rightarrow> False | Some n \<Rightarrow> n < patch)"

text \<open>
  \<open>_assignDeprecationFlags\<close>. The deprecation table is a plain object too, but here an
  inherited member changes nothing: the code reads \<open>deprecationData[name][version]\<close>,
  and neither a function of \<open>Object.prototype\<close> nor the prototype has a property named
  by a number, so the test fails as it does for a name without an entry.
\<close>

definition assignDeprecationFlags ::
  "engine \<Rightarrow> string \<Rightarrow> int \<Rightarrow> defn \<Rightarrow> error + defn" where
  "assignDeprecationFlags e name version def =
     (let d = def\<lparr>readable := True, writeable := True\<rparr> in
      case deprecationData e of
        None \<Rightarrow> Inl PropertyOfNullish
      | Some table \<Rightarrow>
          (case table name of
             None \<Rightarrow> Inr d
           | Some byVersion \<Rightarrow>
               (case byVersion version of
                  None \<Rightarrow> Inr d
                | Some data \<Rightarrow>
                    if (bound_falsy (dmin data) \<or> min_above (dmin data) (majorPatchVersion e))
                       \<and> (bound_falsy (dmax data) \<or> max_below (dmax data) (majorPatchVersion e))
                    then Inr (d\<lparr>writeable := False, readable := (dreadable data = Some True)\<rparr>)
                    else Inr d)))"

text \<open>The first step of \<open>addDefinition\<close>: compile unless all three routines are functions.\<close>

definition compile_if_required :: "collaborators \<Rightarrow> defn \<Rightarrow> string + defn" where
  "compile_if_required col def =
     (if writer def = None \<or> reader def = None \<or> cloner def = None
      then compile col def
      else Inr def)"

text \<open>
  \<open>addDefinition\<close>. A failed compilation is logged and the call returns. Otherwise the
  name gets an empty table of versions if it has none, and the definition is stored
  when \<open>overwrite\<close> is set or the slot is empty; the flags are computed only then, and
  their computation throws when no deprecation table has been loaded yet.
\<close>

definition addDefinition ::
  "collaborators \<Rightarrow> engine \<Rightarrow> string \<Rightarrow> int \<Rightarrow> defn \<Rightarrow> bool \<Rightarrow> (error + unit) \<times> engine" where
  "addDefinition col e name version def overwrite =
     (case compile_if_required col def of
        Inl ex \<Rightarrow> (Inr (), e\<lparr>logged := logged e @ [ErrorCompiling name version ex]\<rparr>)
      | Inr d \<Rightarrow>
          (let versions = (case map_of (messages e) name of None \<Rightarrow> [] | Some vs \<Rightarrow> vs);
               e1 = (case map_of (messages e) name of
                       None \<Rightarrow> e\<lparr>messages := AList.update name [] (messages e)\<rparr>
                     | Some vs \<Rightarrow> e)
           in if overwrite \<or> map_of versions version = None
              then (case assignDeprecationFlags e1 name version d of
                      Inl err \<Rightarrow> (Inl err, e1)
                    | Inr flagged \<Rightarrow>
                        (Inr (), e1\<lparr>messages :=
                           AList.update name (AList.update version flagged versions) (messages e1)\<rparr>))
              else (Inr (), e1)))"

definition parseDefinition :: "collaborators \<Rightarrow> string \<Rightarrow> string + defn option" where
  "parseDefinition col data = defParser col data None"

definition isDefaultDefinition :: "engine \<Rightarrow> string \<Rightarrow> int \<Rightarrow> error + bool" where
  "isDefaultDefinition e name version =
     (case defaultDefinitions e of
        None \<Rightarrow> Inl PropertyOfNullish
      | Some defaults \<Rightarrow> Inr ((name, version) \<in> defaults))"

definition isCustomDefinition :: "engine \<Rightarrow> string \<Rightarrow> int \<Rightarrow> error + bool" where
  "isCustomDefinition e name version = map_sum id Not (isDefaultDefinition e name version)"

subsection \<open>Loading\<close>

text \<open>
  The statement both loaders end their loop body with:
  \<^verbatim>\<open>if (definition && (!parsedName.platform || parsedName.platform === this.platform))\<close>
  \<^verbatim>\<open>    this.addDefinition(parsedName.name, parsedName.version, definition, !!parsedName.platform);\<close>
\<close>

definition platform_truthy :: "string option \<Rightarrow> bool" where
  "platform_truthy p = (case p of None \<Rightarrow> False | Some s \<Rightarrow> s \<noteq> [])"

definition register_loaded ::
  "collaborators \<Rightarrow> engine \<Rightarrow> parsedName \<Rightarrow> defn option \<Rightarrow> (error + unit) \<times> engine" where
  "register_loaded col e parsedName loaded_def =
     (case loaded_def of
        None \<Rightarrow> (Inr (), e)
      | Some d \<Rightarrow>
          if \<not> platform_truthy (pn_platform parsedName) \<or> pn_platform parsedName = Some (platform e)
          then addDefinition col e (pn_name parsedName) (pn_version parsedName) d
                 (platform_truthy (pn_platform parsedName))
          else (Inr (), e))"

text \<open>A loop over a list whose body may throw: the first exception ends it.\<close>

fun for_each ::
  "('a \<Rightarrow> engine \<Rightarrow> (error + unit) \<times> engine) \<Rightarrow> 'a list \<Rightarrow> engine \<Rightarrow> (error + unit) \<times> engine" where
  "for_each step [] e = (Inr (), e)"
| "for_each step (x # xs) e =
     (case step x e of
        (Inl err, e') \<Rightarrow> (Inl err, e')
      | (Inr u, e') \<Rightarrow> for_each step xs e')"

text \<open>
  The parsed bundle \<open>data\<close>: \<open>data.protocol\<close> in the order its keys are enumerated
  (file name and encoded source), and \<open>data.deprecated\<close> when present.
\<close>

record bundle_data =
  protocol :: "(string \<times> string) list"
  deprecated :: "(string \<rightharpoonup> (int \<rightharpoonup> deprecationEntry)) option"

text \<open>
  The \<open>forEach\<close> that fills \<open>lowestDefaultDefVersions\<close>. It reads \<open>def.name\<close> of every
  element of \<open>defaultDefData\<close>, also of a \<open>null\<close> one; the test of the table's entry is a
  truthiness test, so an entry that is 0 or \<open>NaN\<close> is replaced like a missing one, and an
  inherited member is passed to \<open>Math.min\<close>, which makes \<open>NaN\<close> of it.
\<close>

fun lowest_versions ::
  "parsedName option list \<Rightarrow> (string \<rightharpoonup> lowest_entry) \<Rightarrow>
     (error + unit) \<times> (string \<rightharpoonup> lowest_entry)" where
  "lowest_versions [] low = (Inr (), low)"
| "lowest_versions (None # ds) low = (Inl PropertyOfNullish, low)"
| "lowest_versions (Some d # ds) low =
     lowest_versions ds
       (lowest_set low (pn_name d)
          (case lowest_get low (pn_name d) of
             None \<Rightarrow> Version (pn_version d)
           | Some cur \<Rightarrow>
               if entry_truthy cur then Math_min cur (pn_version d) else Version (pn_version d)))"

text \<open>The body of the loop over \<open>data.protocol\<close>.\<close>

definition load_bundle_entry ::
  "collaborators \<Rightarrow> string \<times> string \<Rightarrow> engine \<Rightarrow> (error + unit) \<times> engine" where
  "load_bundle_entry col entry e =
     (let file = fst entry;
          parsed = parseDefinitionFilename file;
          e1 = e\<lparr>logged := logged e @ fst parsed\<rparr>;
          defData = base64_utf8 col (snd entry)
      in case snd parsed of
           None \<Rightarrow> (Inl PropertyOfNullish, e1)
         | Some parsedName \<Rightarrow>
             (case (if pn_type parsedName = ''js'' then requireStr col defData file
                    else defParser col file (Some defData)) of
                Inl ex \<Rightarrow> (Inl (Thrown ex), e1)
              | Inr loaded_def \<Rightarrow> register_loaded col e1 parsedName loaded_def))"

definition loadDefaultBundle :: "collaborators \<Rightarrow> engine \<Rightarrow> bundle_data \<Rightarrow> (error + unit) \<times> engine" where
  "loadDefaultBundle col e data =
     (let parsed = map (\<lambda>entry. parseDefinitionFilename (fst entry)) (protocol data);
          defaultDefData = map snd parsed;
          e1 = e\<lparr>logged := logged e @ concat (map fst parsed)\<rparr>;
          lowest = lowest_versions defaultDefData Map.empty;
          e2 = e1\<lparr>lowestDefaultDefVersions := Some (snd lowest)\<rparr>
      in case fst lowest of
           Inl err \<Rightarrow> (Inl err, e2)
         | Inr u \<Rightarrow>
             (let e3 = e2\<lparr>deprecationData :=
                          Some (case deprecated data of None \<Rightarrow> Map.empty | Some table \<Rightarrow> table),
                        defaultDefinitions :=
                          Some (set (List.map_filter (map_option (\<lambda>d. (pn_name d, pn_version d))) defaultDefData)),
                        messages := []\<rparr>
              in case for_each (load_bundle_entry col) (protocol data) e3 of
                   (Inl err, e4) \<Rightarrow> (Inl err, e4)
                 | (Inr u, e4) \<Rightarrow> (Inr (), e4\<lparr>loaded := True\<rparr>)))"

text \<open>
  \<open>path.join\<close> of a directory and a file name; the result only goes to the loaders, so
  its normalisation is left out.
\<close>

definition path_join :: "string \<Rightarrow> string \<Rightarrow> string" where
  "path_join dir file = dir @ ''/'' @ file"

text \<open>
  The test that skips a custom file as outdated:
  \<^verbatim>\<open>parsedName.version !== 0 && this.lowestDefaultDefVersions[parsedName.name]\<close>
  \<^verbatim>\<open>  && parsedName.version < this.lowestDefaultDefVersions[parsedName.name]\<close>.
  It reads the table of lowest bundled versions only when the version is not 0, and
  throws if the table was never assigned.
\<close>

definition outdated_custom :: "engine \<Rightarrow> parsedName \<Rightarrow> error + bool" where
  "outdated_custom e parsedName =
     (if pn_version parsedName \<noteq> 0
      then (case lowestDefaultDefVersions e of
              None \<Rightarrow> Inl PropertyOfNullish
            | Some lowest \<Rightarrow>
                (case lowest_get lowest (pn_name parsedName) of
                   None \<Rightarrow> Inr False
                 | Some cur \<Rightarrow> Inr (entry_truthy cur \<and> version_below (pn_version parsedName) cur)))
      else Inr False)"

text \<open>The body of the loop over the files of the custom directory.\<close>

definition load_custom_file ::
  "collaborators \<Rightarrow> string \<Rightarrow> string \<Rightarrow> engine \<Rightarrow> (error + unit) \<times> engine" where
  "load_custom_file col defPath file e =
     (let fullpath = path_join defPath file;
          parsed = parseDefinitionFilename file;
          e1 = e\<lparr>logged := logged e @ fst parsed\<rparr>
      in case snd parsed of
           None \<Rightarrow> (Inr (), e1)
         | Some parsedName \<Rightarrow>
             (case outdated_custom e1 parsedName of
                Inl err \<Rightarrow> (Inl err, e1)
              | Inr True \<Rightarrow>
                  (Inr (), e1\<lparr>logged := logged e1 @
                     [DebugSkippedOutdated (pn_name parsedName) (pn_version parsedName)]\<rparr>)
              | Inr False \<Rightarrow>
                  (case (if pn_type parsedName = ''js'' then require col fullpath
                         else defParser col fullpath None) of
                     Inl ex \<Rightarrow> (Inl (Thrown ex), e1)
                   | Inr loaded_def \<Rightarrow> register_loaded col e1 parsedName loaded_def)))"

definition loadCustomDefinitions :: "collaborators \<Rightarrow> engine \<Rightarrow> string \<Rightarrow> (error + unit) \<times> engine" where
  "loadCustomDefinitions col e defPath =
     (case readdirSync col defPath of
        Inl ex \<Rightarrow> (Inl (Thrown ex), e)
      | Inr defFiles \<Rightarrow> for_each (load_custom_file col defPath) defFiles e)"

definition load :: "collaborators \<Rightarrow> (string \<Rightarrow> string + bundle_data) \<Rightarrow> engine \<Rightarrow> string \<Rightarrow> (error + unit) \<times> engine" where
  "load col readBundle e dataPath =
     (case readBundle (path_join dataPath ''data.json'') of
        Inl ex \<Rightarrow> (Inl (Thrown ex), e)
      | Inr data \<Rightarrow>
          (case loadDefaultBundle col e data of
             (Inl err, e1) \<Rightarrow> (Inl err, e1)
           | (Inr u, e1) \<Rightarrow> loadCustomDefinitions col e1 (path_join dataPath ''definitions'')))"

subsection \<open>Buffers\<close>

text \<open>
  \<open>Buffer.allocUnsafe(n)\<close>: \<open>n\<close> bytes of whatever the memory held, given by a function
  from positions to bytes.
\<close>

definition allocUnsafe :: "(nat \<Rightarrow> byte) \<Rightarrow> nat \<Rightarrow> byte list" where
  "allocUnsafe uninit n = map uninit [0..<n]"

text \<open>
  \<open>source.copy(target, 0, 0, sourceEnd)\<close>: the bytes of the source before \<open>sourceEnd\<close>
  go to the start of the target, as many as both buffers have; it gives the target's
  new contents.
\<close>

definition buffer_copy :: "byte list \<Rightarrow> byte list \<Rightarrow> nat \<Rightarrow> byte list" where
  "buffer_copy source target sourceEnd =
     (let n = min (min sourceEnd (length source)) (length target)
      in take n source @ drop n target)"

definition heap_get :: "byte list list \<Rightarrow> addr \<Rightarrow> byte list" where
  "heap_get h a = (if a < length h then h ! a else [])"

definition heap_set :: "byte list list \<Rightarrow> addr \<Rightarrow> byte list \<Rightarrow> byte list list" where
  "heap_set h a bytes = (if a < length h then h[a := bytes] else h)"

text \<open>The bytes a view covers, and the buffer after a routine has written through the view:
  a view cannot resize its buffer, so only the positions inside the view change.\<close>

definition view_bytes :: "byte list list \<Rightarrow> dataview \<Rightarrow> byte list" where
  "view_bytes h v = take (dv_byteLength v) (heap_get h (dv_buffer v))"

definition overlay :: "byte list \<Rightarrow> byte list \<Rightarrow> byte list" where
  "overlay new old = take (length old) new @ drop (length new) old"

definition view_store :: "byte list list \<Rightarrow> dataview \<Rightarrow> byte list \<Rightarrow> byte list list" where
  "view_store h v bytes =
     heap_set h (dv_buffer v)
       (overlay (take (dv_byteLength v) bytes) (heap_get h (dv_buffer v)))"

text \<open>
  \<open>view.setUint16(byteOffset, value, true)\<close> on the bytes of a view: the value is
  converted to an unsigned 16-bit integer and stored low byte first; an access that
  does not fit the view throws.
\<close>

definition setUint16 :: "byte list \<Rightarrow> nat \<Rightarrow> int \<Rightarrow> error + byte list" where
  "setUint16 bytes byteOffset v =
     (let w = (word_of_int v :: 16 word) in
      if byteOffset + 2 \<le> length bytes
      then Inr (bytes[byteOffset := ucast w, byteOffset + 1 := ucast (drop_bit 8 w)])
      else Inl RangeError)"

subsection \<open>The constructor\<close>

definition PLATFORMS :: "string list" where
  "PLATFORMS = [''pc'', ''console'', ''classic'']"

text \<open>
  The constructor runs in a world with a heap and a log; \<open>uninit a\<close> is what the memory
  of the buffer allocated at address \<open>a\<close> holds. The loop assigns \<open>readViews[i]\<close> for
  every \<open>i\<close> from 0 to 65536, one past the length the array was created with, which
  extends the array.
\<close>

definition constructor ::
  "byte list list \<Rightarrow> log_entry list \<Rightarrow> (addr \<Rightarrow> nat \<Rightarrow> byte) \<Rightarrow>
   string \<Rightarrow> int \<Rightarrow> int \<Rightarrow> protocolMap \<Rightarrow> string option \<Rightarrow> error + engine" where
  "constructor h l uninit rgn major minor pmap platform_arg =
     (let pf = (case platform_arg of None \<Rightarrow> ''pc'' | Some p \<Rightarrow> p) in
      if pf \<notin> set PLATFORMS then Inl InvalidPlatform
      else Inr \<lparr>region = rgn, majorPatchVersion = major, minorPatchVersion = minor,
                platform = pf, protocolMap = pmap, messages = [],
                readBuffer = length h,
                readViews = map (\<lambda>i. \<lparr>dv_buffer = length h, dv_byteLength = i\<rparr>) [0..<Suc 0x10000],
                writeBuffer = Suc (length h),
                writeView = \<lparr>dv_buffer = Suc (length h), dv_byteLength = 0x10000\<rparr>,
                loaded = False,
                lowestDefaultDefVersions = None, deprecationData = None,
                defaultDefinitions = None,
                heap = h @ [allocUnsafe (uninit (length h)) 0x10000,
                            allocUnsafe (uninit (Suc (length h))) 0x10000],
                logged = l\<rparr>)"

subsection \<open>resolveIdentifier\<close>

record resolved =
  r_name :: string
  r_code :: int
  r_version :: jsnum
  r_latest_version :: jsnum
  r_definition :: defn

text \<open>The \<open>switch\<close> on the type of the identifier.\<close>

definition resolve_name_code :: "protocolMap \<Rightarrow> ident \<Rightarrow> error + string \<times> int" where
  "resolve_name_code pmap identifier =
     (case identifier of
        IdString name \<Rightarrow>
          (case pm_name pmap name of
             None \<Rightarrow> Inl (CodeNotKnown name)
           | Some code \<Rightarrow> Inr (name, code))
      | IdNumber code \<Rightarrow>
          (case pm_code pmap code of
             None \<Rightarrow> Inl (MappingNotFound code)
           | Some name \<Rightarrow> Inr (name, code))
      | IdOther \<Rightarrow> Inl IdentifierTypeError)"

text \<open>
  When the name has no table of versions, \<open>latest_version\<close>, \<open>version\<close> and
  \<open>definition\<close> all stay \<open>undefined\<close> and the second error is thrown. Otherwise the test
  \<open>latest_version && version && version < latest_version\<close> chooses the error; both of
  its first two operands are truthiness tests of numbers.
\<close>

definition resolveIdentifier :: "engine \<Rightarrow> ident \<Rightarrow> version_request \<Rightarrow> error + resolved" where
  "resolveIdentifier e identifier definitionVersion =
     (case resolve_name_code (protocolMap e) identifier of
        Inl err \<Rightarrow> Inl err
      | Inr (name, code) \<Rightarrow>
          (case map_of (messages e) name of
             None \<Rightarrow> Inl (NoDefinitionFound name code definitionVersion)
           | Some versions \<Rightarrow>
               (let latest_version = Math_max (map fst versions);
                    version = (case definitionVersion of
                                 Latest \<Rightarrow> latest_version
                               | Exact v \<Rightarrow> Num v);
                    found = (case version of
                               NegInfinity \<Rightarrow> None
                             | Num v \<Rightarrow> map_of versions v)
                in case found of
                     None \<Rightarrow>
                       if num_truthy latest_version \<and> num_truthy version
                          \<and> num_less version latest_version
                       then Inl (VersionOutdated version name code)
                       else Inl (NoDefinitionFound name code definitionVersion)
                   | Some d \<Rightarrow>
                       Inr \<lparr>r_name = name, r_code = code, r_version = version,
                            r_latest_version = latest_version, r_definition = d\<rparr>)))"

subsection \<open>parse, write and clone\<close>

text \<open>\<open>this.readViews[n]\<close>: \<open>undefined\<close> beyond the end of the array.\<close>

definition read_view :: "engine \<Rightarrow> nat \<Rightarrow> dataview option" where
  "read_view e n = (if n < length (readViews e) then Some (readViews e ! n) else None)"

definition parse :: "engine \<Rightarrow> resolved \<Rightarrow> byte list \<Rightarrow> (error + jsval) \<times> engine" where
  "parse e resolvedIdentifier buffer =
     (if \<not> readable (r_definition resolvedIdentifier)
      then (Inl (DeprecatedForReading (r_version resolvedIdentifier)
                   (r_name resolvedIdentifier) (r_code resolvedIdentifier)), e)
      else
        (let e1 = e\<lparr>heap := heap_set (heap e) (readBuffer e)
                       (buffer_copy buffer (heap_get (heap e) (readBuffer e)) (length buffer))\<rparr>
         in case reader (r_definition resolvedIdentifier) of
              None \<Rightarrow> (Inl NotAFunction, e1)
            | Some rd \<Rightarrow>
                (case rd (map_option (view_bytes (heap e1)) (read_view e1 (length buffer))) of
                   Inl ex \<Rightarrow> (Inl (Thrown ex), e1)
                 | Inr decoded \<Rightarrow> (Inr decoded, e1))))"

text \<open>
  \<open>write\<close> returns the new buffer, here its address in the heap the call leaves. The
  header is stored before the result is allocated, so it is in the scratch buffer also
  when the allocation throws on a negative length.
\<close>

text \<open>The method \<open>write\<close>; the name \<open>write\<close> itself is reserved.\<close>

definition write_message ::
  "(addr \<Rightarrow> nat \<Rightarrow> byte) \<Rightarrow> engine \<Rightarrow> resolved \<Rightarrow> jsval \<Rightarrow> (error + addr) \<times> engine" where
  "write_message uninit e resolvedIdentifier data =
     (if \<not> writeable (r_definition resolvedIdentifier)
      then (Inl (DeprecatedForWriting (r_version resolvedIdentifier)
                   (r_name resolvedIdentifier) (r_code resolvedIdentifier)), e)
      else
        (case writer (r_definition resolvedIdentifier) of
           None \<Rightarrow> (Inl NotAFunction, e)
         | Some wr \<Rightarrow>
             (let written = wr (view_bytes (heap e) (writeView e))
                              (if truthy data then data else JObj []);
                  e1 = e\<lparr>heap := view_store (heap e) (writeView e) (snd written)\<rparr>
              in case fst written of
                   Inl ex \<Rightarrow> (Inl (Thrown ex), e1)
                 | Inr len \<Rightarrow>
                     (case setUint16 (view_bytes (heap e1) (writeView e1)) 0 len of
                        Inl err \<Rightarrow> (Inl err, e1)
                      | Inr b1 \<Rightarrow>
                          (case setUint16 b1 2 (r_code resolvedIdentifier) of
                             Inl err \<Rightarrow>
                               (Inl err, e1\<lparr>heap := view_store (heap e1) (writeView e1) b1\<rparr>)
                           | Inr b2 \<Rightarrow>
                               (let e2 = e1\<lparr>heap := view_store (heap e1) (writeView e1) b2\<rparr>
                                in if len < 0 then (Inl RangeError, e2)
                                   else
                                     (let fresh = length (heap e2);
                                          result = allocUnsafe (uninit fresh) (nat len);
                                          copied = buffer_copy (heap_get (heap e2) (writeBuffer e2))
                                                     result (nat len)
                                      in (Inr fresh, e2\<lparr>heap := heap e2 @ [copied]\<rparr>))))))))"

definition clone :: "resolved \<Rightarrow> jsval \<Rightarrow> error + jsval" where
  "clone resolvedIdentifier data =
     (case cloner (r_definition resolvedIdentifier) of
        None \<Rightarrow> Inl NotAFunction
      | Some cl \<Rightarrow>
          (case cl data of
             Inl ex \<Rightarrow> Inl (Thrown ex)
           | Inr copy \<Rightarrow> Inr copy))"

subsection \<open>Reading the tables\<close>

text \<open>The entry of a deprecation table for a name and a version, if there is one.\<close>

definition deprecation_entry ::
  "(string \<rightharpoonup> (int \<rightharpoonup> deprecationEntry)) \<Rightarrow> string \<Rightarrow> int \<Rightarrow> deprecationEntry option" where
  "deprecation_entry table name version =
     (case table name of None \<Rightarrow> None | Some byVersion \<Rightarrow> byVersion version)"

text \<open>The versions the files of a bundle give for a name, in the order of the files.\<close>

definition bundle_versions :: "bundle_data \<Rightarrow> string \<Rightarrow> int list" where
  "bundle_versions data name =
     map pn_version
       (filter (\<lambda>p. pn_name p = name)
          (List.map_filter (\<lambda>entry. snd (parseDefinitionFilename (fst entry))) (protocol data)))"

text \<open>A name that \<open>Object.prototype\<close> has no member for.\<close>

definition ordinary_name :: "string \<Rightarrow> bool" where
  "ordinary_name name = (name \<noteq> ''__proto__'' \<and> name \<notin> set Object_prototype_functions)"

subsection \<open>The scratch buffers as the constructor leaves them\<close>

text \<open>
  What the constructor establishes and every method keeps: the two scratch buffers are
  different buffers of the heap, each of 65536 bytes; there is a read view for every
  length from 0 to 65536, each over the read buffer; the write view covers the write
  buffer.
\<close>

definition scratch_ok :: "engine \<Rightarrow> bool" where
  "scratch_ok e =
     (readBuffer e < length (heap e) \<and> writeBuffer e < length (heap e)
      \<and> readBuffer e \<noteq> writeBuffer e
      \<and> length (heap_get (heap e) (readBuffer e)) = 0x10000
      \<and> length (heap_get (heap e) (writeBuffer e)) = 0x10000
      \<and> readViews e = map (\<lambda>i. \<lparr>dv_buffer = readBuffer e, dv_byteLength = i\<rparr>) [0..<Suc 0x10000]
      \<and> writeView e = \<lparr>dv_buffer = writeBuffer e, dv_byteLength = 0x10000\<rparr>)"

text \<open>The fields that concern the buffers.\<close>

definition buffers :: "engine \<Rightarrow> addr \<times> dataview list \<times> addr \<times> dataview \<times> byte list list" where
  "buffers e = (readBuffer e, readViews e, writeBuffer e, writeView e, heap e)"

text \<open>What a routine's result becomes as the result of the method that called it.\<close>

definition routine_result :: "string + 'a \<Rightarrow> error + 'a" where
  "routine_result res = (case res of Inl ex \<Rightarrow> Inl (Thrown ex) | Inr v \<Rightarrow> Inr v)"

text \<open>The bytes of the write buffer once both header fields are stored.\<close>

definition stamped :: "byte list \<Rightarrow> int \<Rightarrow> int \<Rightarrow> byte list" where
  "stamped bytes len code =
     bytes[0 := ucast (word_of_int len :: 16 word),
           1 := ucast (drop_bit 8 (word_of_int len :: 16 word)),
           2 := ucast (word_of_int code :: 16 word),
           3 := ucast (drop_bit 8 (word_of_int code :: 16 word))]"

subsection \<open>Registered flags, and codecs that are inverses\<close>

text \<open>
  Every definition in the registry that is writeable is readable too: the flags are
  assigned at registration, and no assignment gives a writeable, unreadable definition.
\<close>

definition flags_ok :: "engine \<Rightarrow> bool" where
  "flags_ok e =
     (\<forall>name version d. registered e name version = Some d \<longrightarrow> writeable d \<longrightarrow> readable d)"

text \<open>
  A reader and a writer that are inverses of each other. Whenever the writer, given the
  bytes of its view and a value, returns a length, it has left as many bytes as the view
  has, the length is an end offset inside the view, and the reader decodes the value
  from every packet of that length which agrees with the written bytes from offset 4 on
  (the payload region; the four bytes before it are the header, which the writer does
  not set).
\<close>

definition true_inverses ::
  "(byte list option \<Rightarrow> string + jsval) \<Rightarrow> (byte list \<Rightarrow> jsval \<Rightarrow> (string + int) \<times> byte list) \<Rightarrow> bool" where
  "true_inverses rd wr =
     (\<forall>scratch x len bytes.
        wr scratch x = (Inr len, bytes) \<longrightarrow>
          length bytes = length scratch \<and> 0 \<le> len \<and> nat len \<le> length scratch
          \<and> (\<forall>packet. length packet = nat len
                        \<and> drop 4 packet = drop 4 (take (nat len) bytes) \<longrightarrow>
                 rd (Some packet) = Inr x))"

section \<open>Example instances\<close>

text \<open>
  A small codec, a compiler that attaches it, and an engine built by the constructor
  and loaded from a bundle without files; the properties below are run on them.
  The codec writes the one-byte payload of an object \<open>{v: n}\<close> at offset 4 and throws
  on anything else, also on a view too short for it.
\<close>

definition example_writer :: "byte list \<Rightarrow> jsval \<Rightarrow> (string + int) \<times> byte list" where
  "example_writer bytes data =
     (case data of
        JObj [(k, JNum n)] \<Rightarrow>
          if k = ''v'' \<and> 0 \<le> n \<and> n < 256 \<and> 5 \<le> length bytes
          then (Inr 5, bytes[4 := word_of_int n])
          else (Inl ''unsupported'', bytes)
      | _ \<Rightarrow> (Inl ''unsupported'', bytes))"

definition example_reader :: "byte list option \<Rightarrow> string + jsval" where
  "example_reader view =
     (case view of
        None \<Rightarrow> Inl ''no view''
      | Some bytes \<Rightarrow>
          if length bytes = 5 then Inr (JObj [(''v'', JNum (uint (bytes ! 4)))])
          else Inl ''length'')"

definition example_compile :: "defn \<Rightarrow> string + defn" where
  "example_compile d =
     (if body d = ''broken'' then Inl ''syntax''
      else Inr (d\<lparr>reader := Some example_reader, writer := Some example_writer,
                  cloner := Some Inr\<rparr>))"

definition example_def :: "string \<Rightarrow> defn" where
  "example_def text = \<lparr>body = text, reader = None, writer = None, cloner = None,
     readable = False, writeable = False\<rparr>"

definition example_compiled :: "string \<Rightarrow> defn" where
  "example_compiled text =
     (example_def text)\<lparr>reader := Some example_reader, writer := Some example_writer,
                         cloner := Some Inr\<rparr>"

definition example_col :: collaborators where
  "example_col = \<lparr>compile = example_compile,
     defParser = (\<lambda>file data. Inr (Some (example_def (case data of None \<Rightarrow> file | Some text \<Rightarrow> text)))),
     evalModule = (\<lambda>data file. Inr (Some (example_def data))),
     require = (\<lambda>file. Inr (Some (example_def file))),
     readdirSync = (\<lambda>dir. Inr [''S_TEST.5.def'', ''S_TEST.0.def'', ''notes.txt'']),
     base64_utf8 = (\<lambda>s. s)\<rparr>"

definition example_map :: protocolMap where
  "example_map = \<lparr>pm_name = [''S_TEST'' \<mapsto> 0x1234], pm_code = [0x1234 \<mapsto> ''S_TEST'']\<rparr>"

definition example_table :: "string \<rightharpoonup> (int \<rightharpoonup> deprecationEntry)" where
  "example_table =
     [''S_TEST'' \<mapsto> [1 \<mapsto> \<lparr>dmin = Some 5, dmax = Some 10, dreadable = None\<rparr>,
                     2 \<mapsto> \<lparr>dmin = None, dmax = Some 10, dreadable = Some True\<rparr>]]"

text \<open>What the constructor returns in an empty world whose memory is zeroed.\<close>

definition new_engine :: "int \<Rightarrow> engine" where
  "new_engine patch =
     \<lparr>region = ''EU'', majorPatchVersion = patch, minorPatchVersion = 0,
      platform = ''pc'', protocolMap = example_map, messages = [],
      readBuffer = 0,
      readViews = map (\<lambda>i. \<lparr>dv_buffer = 0, dv_byteLength = i\<rparr>) [0..<Suc 0x10000],
      writeBuffer = Suc 0,
      writeView = \<lparr>dv_buffer = Suc 0, dv_byteLength = 0x10000\<rparr>,
      loaded = False,
      lowestDefaultDefVersions = None, deprecationData = None, defaultDefinitions = None,
      heap = [allocUnsafe (\<lambda>i. 0) 0x10000, allocUnsafe (\<lambda>i. 0) 0x10000],
      logged = []\<rparr>"

definition loaded_engine :: "int \<Rightarrow> engine" where
  "loaded_engine patch =
     snd (loadDefaultBundle example_col (new_engine patch)
            \<lparr>protocol = [], deprecated = Some example_table\<rparr>)"

text \<open>The loaded engine after two registrations: version 5 of \<open>S_TEST\<close>, and version 1
  of \<open>S_OTHER\<close>, a name the protocol map does not have.\<close>

definition registry_engine :: engine where
  "registry_engine =
     snd (addDefinition example_col
            (snd (addDefinition example_col (loaded_engine 12) ''S_TEST'' 5 (example_def ''five'') False))
            ''S_OTHER'' 1 (example_def ''other'') False)"

text \<open>A bundle with versions 7 and 9 of \<open>S_TEST\<close>, and the new engine after loading it.\<close>

definition example_bundle :: bundle_data where
  "example_bundle =
     \<lparr>protocol = [(''S_TEST.7.def'', ''seven''), (''S_TEST.9.def'', ''nine'')],
      deprecated = Some example_table\<rparr>"

definition bundle_engine :: engine where
  "bundle_engine = snd (loadDefaultBundle example_col (new_engine 12) example_bundle)"

text \<open>The example collaborators with a custom directory that holds the given files.\<close>

definition directory_col :: "string list \<Rightarrow> collaborators" where
  "directory_col files = example_col\<lparr>readdirSync := (\<lambda>dir. Inr files)\<rparr>"

text \<open>
  A custom directory for the bundle above: versions of \<open>S_TEST\<close> below, at, and above
  its lowest bundled version 7, version 0, and a file that is no definition.
\<close>

definition example_directory :: "string list" where
  "example_directory =
     [''S_TEST.5.def'', ''S_TEST.7.def'', ''S_TEST.0.def'', ''S_TEST.8.def'', ''notes.txt'']"

text \<open>
  A bundle with version 7 of two messages whose names \<open>Object.prototype\<close> has members
  for, the new engine after loading it, and a custom directory with version 5 of both
  and with a message of a third such name that the bundle does not have.
\<close>

definition prototype_bundle :: bundle_data where
  "prototype_bundle =
     \<lparr>protocol = [(''constructor.7.def'', ''seven''), (''__proto__.7.def'', ''proto seven'')],
      deprecated = None\<rparr>"

definition prototype_engine :: engine where
  "prototype_engine = snd (loadDefaultBundle example_col (new_engine 12) prototype_bundle)"

definition prototype_directory :: "string list" where
  "prototype_directory = [''constructor.5.def'', ''__proto__.5.def'', ''valueOf.3.def'']"

text \<open>What the resolver returns for \<open>S_TEST\<close> on the example registry, a resolution of a
  definition that is neither readable nor writeable, and one whose writer fills the
  whole view.\<close>

definition example_resolved :: resolved where
  "example_resolved =
     \<lparr>r_name = ''S_TEST'', r_code = 0x1234, r_version = Num 5, r_latest_version = Num 5,
      r_definition = (example_compiled ''five'')\<lparr>readable := True, writeable := True\<rparr>\<rparr>"

definition deprecated_resolved :: resolved where
  "deprecated_resolved =
     \<lparr>r_name = ''S_TEST'', r_code = 0x1234, r_version = Num 4, r_latest_version = Num 5,
      r_definition = (example_compiled ''four'')\<lparr>readable := False, writeable := False\<rparr>\<rparr>"

definition full_writer :: "byte list \<Rightarrow> jsval \<Rightarrow> (string + int) \<times> byte list" where
  "full_writer bytes data = (Inr 0x10000, bytes)"

definition full_resolved :: resolved where
  "full_resolved =
     \<lparr>r_name = ''S_TEST'', r_code = 0x1234, r_version = Num 5, r_latest_version = Num 5,
      r_definition = (example_compiled ''five'')\<lparr>writer := Some full_writer,
                        readable := True, writeable := True\<rparr>\<rparr>"

section \<open>Properties\<close>

subsection \<open>The file-name parser\<close>

lemma parse_Foo_3_def:
  "parseDefinitionFilename ''Foo.3.def'' =
     ([], Some \<lparr>pn_name = ''Foo'', pn_version = 3, pn_platform = None, pn_type = ''def''\<rparr>)"
  by code_simp

lemma parse_Foo_3_pc_js:
  "parseDefinitionFilename ''Foo.3.pc.js'' =
     ([], Some \<lparr>pn_name = ''Foo'', pn_version = 3, pn_platform = Some ''pc'', pn_type = ''js''\<rparr>)"
  by code_simp

lemma parse_bar_txt:
  "parseDefinitionFilename ''bar.txt'' = ([DebugSkippingPath ''bar.txt''], None)"
  by code_simp

lemma parse_bad_def:
  "parseDefinitionFilename ''dir/S_TEST.x.def'' = ([WarnInvalidFilename ''S_TEST.x.def''], None)"
  by code_simp

text \<open>A parsed version is never negative, and a parsed name logs nothing.\<close>

lemma foldl_digits_nonneg:
  "list_all is_digit s \<Longrightarrow> 0 \<le> acc \<Longrightarrow> 0 \<le> foldl (\<lambda>acc c. 10 * acc + digit_value c) acc s"
proof (induction s arbitrary: acc)
  case Nil
  then show ?case by simp
next
  case (Cons c s)
  from Cons.prems have "0 \<le> digit_value c"
    by (simp add: is_digit_def digit_value_def char_code_def)
  with Cons show ?case by simp
qed

lemma to_double_nonneg: "0 \<le> n \<Longrightarrow> 0 \<le> to_double n"
  by (auto simp: to_double_def Let_def pos_imp_zdiv_nonneg_iff)

lemma parseInt10_nonneg: "digit_plus s \<Longrightarrow> 0 \<le> parseInt10 s"
  by (simp add: digit_plus_def parseInt10_def foldl_digits_nonneg to_double_nonneg)

text \<open>Above \<open>2 ^ 53\<close> the version is the nearest double: \<open>2 ^ 53 + 1\<close> is read as \<open>2 ^ 53\<close>.\<close>

lemma parseInt10_rounds:
  "parseInt10 ''9007199254740991'' = 9007199254740991"
  "parseInt10 ''9007199254740993'' = 9007199254740992"
  "parseInt10 ''9007199254740995'' = 9007199254740996"
  "parseInt10 ''18014398509481987'' = 18014398509481988"
  by code_simp+

text \<open>
  The greatest double is \<open>2 ^ 1024 - 2 ^ 971\<close>; an integer that is nearer to \<open>2 ^ 1024\<close>
  than to it, and every greater one, is read as \<open>Infinity\<close>.
\<close>

lemma to_double_ends:
  "to_double (2 ^ 1024 - 2 ^ 971) = 2 ^ 1024 - 2 ^ 971"
  "to_double (2 ^ 1024 - 2 ^ 970 - 1) = 2 ^ 1024 - 2 ^ 971"
  "to_double (2 ^ 1024 - 2 ^ 970) = 2 ^ 1024"
  "to_double (2 ^ 1024 + 12345) = 2 ^ 1024"
  by code_simp+

lemma match_filename_version_nonneg:
  "match_filename s = Some pn \<Longrightarrow> 0 \<le> pn_version pn"
  by (auto simp: match_filename_def parseInt10_nonneg split: list.splits if_splits)

lemma parseDefinitionFilename_Some:
  assumes "snd (parseDefinitionFilename file) = Some pn"
  shows "parseDefinitionFilename file = ([], Some pn)" and "0 \<le> pn_version pn"
  using assms match_filename_version_nonneg[of "basename file" pn]
  by (auto simp: parseDefinitionFilename_def split: option.splits if_splits)

subsection \<open>The example engine\<close>

lemma constructor_new_engine:
  "constructor [] [] (\<lambda>a i. 0) ''EU'' patch 0 example_map None = Inr (new_engine patch)"
  by (simp add: constructor_def new_engine_def PLATFORMS_def)

lemma new_engine_fields:
  "majorPatchVersion (new_engine p) = p"
  "messages (new_engine p) = []"
  "platform (new_engine p) = ''pc''"
  "protocolMap (new_engine p) = example_map"
  "logged (new_engine p) = []"
  by (simp_all add: new_engine_def)

lemma loaded_engine_fields:
  "majorPatchVersion (loaded_engine p) = p"
  "messages (loaded_engine p) = []"
  "platform (loaded_engine p) = ''pc''"
  "protocolMap (loaded_engine p) = example_map"
  "deprecationData (loaded_engine p) = Some example_table"
  "lowestDefaultDefVersions (loaded_engine p) = Some Map.empty"
  "logged (loaded_engine p) = []"
  by (simp_all add: loaded_engine_def loadDefaultBundle_def new_engine_fields)

lemma example_compile_if_required:
  "compile_if_required example_col (example_def text) =
     (if text = ''broken'' then Inl ''syntax'' else Inr (example_compiled text))"
  by (simp add: compile_if_required_def example_col_def example_compile_def example_def_def
        example_compiled_def)

lemma example_entries:
  "deprecation_entry example_table ''S_TEST'' 1 =
     Some \<lparr>dmin = Some 5, dmax = Some 10, dreadable = None\<rparr>"
  "deprecation_entry example_table ''S_TEST'' 2 =
     Some \<lparr>dmin = None, dmax = Some 10, dreadable = Some True\<rparr>"
  "deprecation_entry example_table ''S_TEST'' 3 = None"
  by (simp_all add: deprecation_entry_def example_table_def)

subsection \<open>Registration\<close>

lemma assignDeprecationFlags_messages [simp]:
  "assignDeprecationFlags (e\<lparr>messages := m\<rparr>) name version d =
     assignDeprecationFlags e name version d"
  by (simp add: assignDeprecationFlags_def Let_def split: option.splits)

lemma assignDeprecationFlags_logged [simp]:
  "assignDeprecationFlags (e\<lparr>logged := l\<rparr>) name version d =
     assignDeprecationFlags e name version d"
  by (simp add: assignDeprecationFlags_def Let_def split: option.splits)

text \<open>What \<open>addDefinition\<close> leaves in the registry when it stores, and when it does not.\<close>

lemma addDefinition_stores:
  assumes "compile_if_required col def = Inr d"
      and "assignDeprecationFlags e name version d = Inr flagged"
      and "overwrite \<or> registered e name version = None"
  shows "fst (addDefinition col e name version def overwrite) = Inr ()"
    and "registered (snd (addDefinition col e name version def overwrite)) n v =
           (if n = name \<and> v = version then Some flagged else registered e n v)"
  using assms
  by (auto simp: addDefinition_def Let_def registered_def update_conv' split: option.splits)

lemma addDefinition_keeps:
  assumes "\<not> overwrite" and "registered e name version = Some old"
  shows "fst (addDefinition col e name version def overwrite) = Inr ()"
    and "registered (snd (addDefinition col e name version def overwrite)) n v = registered e n v"
  using assms
  by (auto simp: addDefinition_def Let_def registered_def update_conv'
        split: option.splits sum.splits)

text \<open>The flags on an engine that has a deprecation table.\<close>

lemma assignDeprecationFlags_loaded:
  assumes "deprecationData e = Some table"
  shows "assignDeprecationFlags e name version d =
     Inr (case deprecation_entry table name version of
            None \<Rightarrow> d\<lparr>readable := True, writeable := True\<rparr>
          | Some entry \<Rightarrow>
              if (dmin entry = None \<or> dmin entry = Some 0
                  \<or> (\<exists>m. dmin entry = Some m \<and> majorPatchVersion e < m))
               \<and> (dmax entry = None \<or> dmax entry = Some 0
                  \<or> (\<exists>m. dmax entry = Some m \<and> m < majorPatchVersion e))
              then d\<lparr>readable := (dreadable entry = Some True), writeable := False\<rparr>
              else d\<lparr>readable := True, writeable := True\<rparr>)"
  using assms
  by (auto simp: assignDeprecationFlags_def deprecation_entry_def Let_def bound_falsy_def
        min_above_def max_below_def split: option.splits)

text \<open>\<open>addDefinition\<close> changes the registry and the log only.\<close>

lemma addDefinition_frame:
  "\<exists>m l. snd (addDefinition col e name version def overwrite) = e\<lparr>messages := m, logged := l\<rparr>"
proof (cases "compile_if_required col def")
  case (Inl ex)
  have "e\<lparr>logged := logged e @ [ErrorCompiling name version ex]\<rparr>
          = e\<lparr>messages := messages e, logged := logged e @ [ErrorCompiling name version ex]\<rparr>"
    by simp
  with Inl show ?thesis
    unfolding addDefinition_def by (metis old.sum.simps(5) snd_conv)
next
  case (Inr d)
  define e1 where "e1 = (case map_of (messages e) name of
                       None \<Rightarrow> e\<lparr>messages := AList.update name [] (messages e)\<rparr>
                     | Some vs \<Rightarrow> e)"
  have e1: "e1 = e\<lparr>messages := messages e1, logged := logged e\<rparr>"
    by (auto simp: e1_def split: option.splits)
  have "snd (addDefinition col e name version def overwrite) = e1
      \<or> (\<exists>m. snd (addDefinition col e name version def overwrite) = e1\<lparr>messages := m\<rparr>)"
    using Inr by (auto simp: addDefinition_def Let_def e1_def split: option.splits sum.splits)
  then show ?thesis
  proof
    assume "snd (addDefinition col e name version def overwrite) = e1"
    with e1 show ?thesis by metis
  next
    assume "\<exists>m. snd (addDefinition col e name version def overwrite) = e1\<lparr>messages := m\<rparr>"
    then obtain m where "snd (addDefinition col e name version def overwrite) = e1\<lparr>messages := m\<rparr>" ..
    also have "\<dots> = e\<lparr>messages := m, logged := logged e\<rparr>"
      by (subst e1) simp
    finally show ?thesis by blast
  qed
qed

lemma addDefinition_fields [simp]:
  "deprecationData (snd (addDefinition col e name version def overwrite)) = deprecationData e"
  "majorPatchVersion (snd (addDefinition col e name version def overwrite)) = majorPatchVersion e"
  "platform (snd (addDefinition col e name version def overwrite)) = platform e"
  "lowestDefaultDefVersions (snd (addDefinition col e name version def overwrite)) = lowestDefaultDefVersions e"
  "protocolMap (snd (addDefinition col e name version def overwrite)) = protocolMap e"
  "heap (snd (addDefinition col e name version def overwrite)) = heap e"
  using addDefinition_frame[of col e name version "def" overwrite] by auto

lemma assignDeprecationFlags_after_add [simp]:
  "assignDeprecationFlags (snd (addDefinition col e n v def overwrite)) name version d =
     assignDeprecationFlags e name version d"
  using addDefinition_frame[of col e n v "def" overwrite] by auto

text \<open>
  Claim C1, as the code has it. A definition that \<open>addDefinition\<close> stores (it compiled,
  and \<open>overwrite\<close> is set or the slot was empty) on an engine with a deprecation table
  gets its flags as follows. When the table has an entry for the name and the version,
  and the minimum is missing, zero or above the engine's major patch version, and the
  maximum is missing, zero or below it, then \<open>writeable\<close> is false and \<open>readable\<close> is the
  entry's \<open>readable\<close> field (false when absent). In every other case both flags are
  true. The other fields are those of the compiled definition.
\<close>

theorem registered_deprecation_flags:
  assumes "deprecationData e = Some table"
      and "compile_if_required col def = Inr d"
      and "overwrite \<or> registered e name version = None"
  shows "registered (snd (addDefinition col e name version def overwrite)) name version =
     Some (case deprecation_entry table name version of
            None \<Rightarrow> d\<lparr>readable := True, writeable := True\<rparr>
          | Some entry \<Rightarrow>
              if (dmin entry = None \<or> dmin entry = Some 0
                  \<or> (\<exists>m. dmin entry = Some m \<and> majorPatchVersion e < m))
               \<and> (dmax entry = None \<or> dmax entry = Some 0
                  \<or> (\<exists>m. dmax entry = Some m \<and> m < majorPatchVersion e))
              then d\<lparr>readable := (dreadable entry = Some True), writeable := False\<rparr>
              else d\<lparr>readable := True, writeable := True\<rparr>)"
  using addDefinition_stores(2)[OF assms(2) assignDeprecationFlags_loaded[OF assms(1)] assms(3),
          of name version]
  by simp

text \<open>
  The entry for version 2 has a maximum of 10 only, and the engine runs patch 12: the
  stored definition is readable and not writeable.
\<close>

theorem registered_deprecation_flags_witness:
  "deprecationData (loaded_engine 12) = Some example_table
   \<and> compile_if_required example_col (example_def ''x'') = Inr (example_compiled ''x'')
   \<and> registered (loaded_engine 12) ''S_TEST'' 2 = None
   \<and> registered (snd (addDefinition example_col (loaded_engine 12) ''S_TEST'' 2
                        (example_def ''x'') False)) ''S_TEST'' 2 =
       Some ((example_compiled ''x'')\<lparr>readable := True, writeable := False\<rparr>)"
  using registered_deprecation_flags[of "loaded_engine 12" example_table example_col
          "example_def ''x''" "example_compiled ''x''" False "''S_TEST''" 2]
  by (simp add: loaded_engine_fields example_compile_if_required registered_def example_entries)

text \<open>
  Against claim C1 as stated: the entry for version 1 has the bounds 5 and 10 and the
  engine runs patch 3, strictly outside the interval from 5 to 10, yet the stored
  definition is writeable.
\<close>

theorem deprecation_interval_counterexample:
  "deprecation_entry example_table ''S_TEST'' 1 =
     Some \<lparr>dmin = Some 5, dmax = Some 10, dreadable = None\<rparr>
   \<and> majorPatchVersion (loaded_engine 3) < 5
   \<and> map_option writeable
        (registered (snd (addDefinition example_col (loaded_engine 3) ''S_TEST'' 1
                            (example_def ''x'') False)) ''S_TEST'' 1) = Some True"
  by (simp add: addDefinition_def example_compile_if_required loaded_engine_fields
        assignDeprecationFlags_def example_table_def registered_def bound_falsy_def min_above_def
        max_below_def deprecation_entry_def)

text \<open>
  Claim C4. For a definition that compiles, on an engine with a deprecation table (so
  that the flags can be computed; \<open>flagged\<close> is the definition with its flags):
  with \<open>overwrite\<close> the call replaces whatever the slot held; without it the call fills
  an empty slot and leaves an occupied one as it is, whatever is offered. The loaders
  pass \<open>overwrite\<close> as the presence of a platform tag, so of a file tagged with the
  engine's platform and an untagged file for the same name and version, the tagged one
  is in the registry after both are registered, in either order. The statement is about
  the slot of the name and the version; what the other slots hold is no part of it (a
  definition object that is registered a second time has its flags assigned again, and
  an earlier slot that holds the same object shows the new flags).
\<close>

theorem addDefinition_overwrite_rule:
  assumes "compile_if_required col def = Inr d"
      and "assignDeprecationFlags e name version d = Inr flagged"
  shows
   "registered (snd (addDefinition col e name version def True)) name version = Some flagged
    \<and> (registered e name version = None \<longrightarrow>
         registered (snd (addDefinition col e name version def False)) name version = Some flagged)
    \<and> (\<forall>old other. registered e name version = Some old \<longrightarrow>
         registered (snd (addDefinition col e name version other False)) name version = Some old)
    \<and> (\<forall>other agnostic tagged.
         pn_name tagged = name \<and> pn_version tagged = version
         \<and> pn_platform tagged = Some (platform e) \<and> platform e \<noteq> []
         \<and> pn_name agnostic = name \<and> pn_version agnostic = version
         \<and> pn_platform agnostic = None \<longrightarrow>
           registered (snd (register_loaded col
               (snd (register_loaded col e agnostic (Some other))) tagged (Some def))) name version
             = Some flagged
         \<and> registered (snd (register_loaded col
               (snd (register_loaded col e tagged (Some def))) agnostic (Some other))) name version
             = Some flagged)"
proof (intro conjI allI impI)
  show over: "registered (snd (addDefinition col e name version def True)) name version = Some flagged"
    using addDefinition_stores(2)[OF assms, of True name version] by simp
  show "registered (snd (addDefinition col e name version def False)) name version = Some flagged"
    if "registered e name version = None"
    using addDefinition_stores(2)[OF assms, of False name version] that by simp
  show "registered (snd (addDefinition col e name version other False)) name version = Some old"
    if "registered e name version = Some old" for old other
    using addDefinition_keeps(2)[of False e name version old col other name version] that by simp
next
  fix other :: defn and agnostic tagged :: parsedName
  assume h: "pn_name tagged = name \<and> pn_version tagged = version
         \<and> pn_platform tagged = Some (platform e) \<and> platform e \<noteq> []
         \<and> pn_name agnostic = name \<and> pn_version agnostic = version
         \<and> pn_platform agnostic = None"
  let ?e1 = "snd (addDefinition col e name version other False)"
  have a: "register_loaded col e agnostic (Some other) = addDefinition col e name version other False"
    using h by (simp add: register_loaded_def platform_truthy_def)
  have t: "register_loaded col e' tagged (Some def) = addDefinition col e' name version def True"
    if "platform e' = platform e" for e'
    using h that by (simp add: register_loaded_def platform_truthy_def)
  have flags1: "assignDeprecationFlags ?e1 name version d = Inr flagged"
    using assms(2) by simp
  show "registered (snd (register_loaded col
               (snd (register_loaded col e agnostic (Some other))) tagged (Some def))) name version
             = Some flagged"
    using addDefinition_stores(2)[OF assms(1) flags1, of True name version]
    by (simp add: a t)
  let ?e2 = "snd (addDefinition col e name version def True)"
  have stored: "registered ?e2 name version = Some flagged"
    using addDefinition_stores(2)[OF assms, of True name version] by simp
  have a2: "register_loaded col ?e2 agnostic (Some other) = addDefinition col ?e2 name version other False"
    using h by (simp add: register_loaded_def platform_truthy_def)
  show "registered (snd (register_loaded col
               (snd (register_loaded col e tagged (Some def))) agnostic (Some other))) name version
             = Some flagged"
    using addDefinition_keeps(2)[of False ?e2 name version flagged col other name version] stored
    by (simp add: t a2)
qed

text \<open>Both orders on the loaded example engine, for version 3 of \<open>S_TEST\<close>.\<close>

theorem addDefinition_overwrite_rule_witness:
  "compile_if_required example_col (example_def ''tagged'') = Inr (example_compiled ''tagged'')
   \<and> assignDeprecationFlags (loaded_engine 12) ''S_TEST'' 3 (example_compiled ''tagged'') =
       Inr ((example_compiled ''tagged'')\<lparr>readable := True, writeable := True\<rparr>)
   \<and> registered (snd (register_loaded example_col
         (snd (register_loaded example_col (loaded_engine 12)
                 \<lparr>pn_name = ''S_TEST'', pn_version = 3, pn_platform = None, pn_type = ''def''\<rparr>
                 (Some (example_def ''plain''))))
         \<lparr>pn_name = ''S_TEST'', pn_version = 3, pn_platform = Some ''pc'', pn_type = ''def''\<rparr>
         (Some (example_def ''tagged'')))) ''S_TEST'' 3 =
       Some ((example_compiled ''tagged'')\<lparr>readable := True, writeable := True\<rparr>)
   \<and> registered (snd (register_loaded example_col
         (snd (register_loaded example_col (loaded_engine 12)
                 \<lparr>pn_name = ''S_TEST'', pn_version = 3, pn_platform = Some ''pc'', pn_type = ''def''\<rparr>
                 (Some (example_def ''tagged''))))
         \<lparr>pn_name = ''S_TEST'', pn_version = 3, pn_platform = None, pn_type = ''def''\<rparr>
         (Some (example_def ''plain'')))) ''S_TEST'' 3 =
       Some ((example_compiled ''tagged'')\<lparr>readable := True, writeable := True\<rparr>)"
proof -
  have c: "compile_if_required example_col (example_def ''tagged'') = Inr (example_compiled ''tagged'')"
    by (simp add: example_compile_if_required)
  have f: "assignDeprecationFlags (loaded_engine 12) ''S_TEST'' 3 (example_compiled ''tagged'') =
       Inr ((example_compiled ''tagged'')\<lparr>readable := True, writeable := True\<rparr>)"
    by (simp add: assignDeprecationFlags_loaded[OF loaded_engine_fields(5)] example_entries)
  have orders: "\<forall>other agnostic tagged.
         pn_name tagged = ''S_TEST'' \<and> pn_version tagged = 3
         \<and> pn_platform tagged = Some (platform (loaded_engine 12)) \<and> platform (loaded_engine 12) \<noteq> []
         \<and> pn_name agnostic = ''S_TEST'' \<and> pn_version agnostic = 3
         \<and> pn_platform agnostic = None \<longrightarrow>
           registered (snd (register_loaded example_col
               (snd (register_loaded example_col (loaded_engine 12) agnostic (Some other))) tagged
               (Some (example_def ''tagged'')))) ''S_TEST'' 3
             = Some ((example_compiled ''tagged'')\<lparr>readable := True, writeable := True\<rparr>)
         \<and> registered (snd (register_loaded example_col
               (snd (register_loaded example_col (loaded_engine 12) tagged
               (Some (example_def ''tagged'')))) agnostic (Some other))) ''S_TEST'' 3
             = Some ((example_compiled ''tagged'')\<lparr>readable := True, writeable := True\<rparr>)"
    using addDefinition_overwrite_rule[OF c f] by blast
  have "registered (snd (register_loaded example_col
         (snd (register_loaded example_col (loaded_engine 12)
                 \<lparr>pn_name = ''S_TEST'', pn_version = 3, pn_platform = None, pn_type = ''def''\<rparr>
                 (Some (example_def ''plain''))))
         \<lparr>pn_name = ''S_TEST'', pn_version = 3, pn_platform = Some ''pc'', pn_type = ''def''\<rparr>
         (Some (example_def ''tagged'')))) ''S_TEST'' 3 =
       Some ((example_compiled ''tagged'')\<lparr>readable := True, writeable := True\<rparr>)
   \<and> registered (snd (register_loaded example_col
         (snd (register_loaded example_col (loaded_engine 12)
                 \<lparr>pn_name = ''S_TEST'', pn_version = 3, pn_platform = Some ''pc'', pn_type = ''def''\<rparr>
                 (Some (example_def ''tagged''))))
         \<lparr>pn_name = ''S_TEST'', pn_version = 3, pn_platform = None, pn_type = ''def''\<rparr>
         (Some (example_def ''plain'')))) ''S_TEST'' 3 =
       Some ((example_compiled ''tagged'')\<lparr>readable := True, writeable := True\<rparr>)"
    using orders[rule_format, of
        "\<lparr>pn_name = ''S_TEST'', pn_version = 3, pn_platform = Some ''pc'', pn_type = ''def''\<rparr>"
        "\<lparr>pn_name = ''S_TEST'', pn_version = 3, pn_platform = None, pn_type = ''def''\<rparr>"
        "example_def ''plain''"]
    by (simp add: loaded_engine_fields)
  with c f show ?thesis by simp
qed

subsection \<open>The loaders change the registry and the log only\<close>

lemma register_loaded_frame:
  "\<exists>m l. snd (register_loaded col e pn ld) = e\<lparr>messages := m, logged := l\<rparr>"
proof -
  have "snd (register_loaded col e pn ld) = e
      \<or> (\<exists>n v d ow. snd (register_loaded col e pn ld) = snd (addDefinition col e n v d ow))"
    by (auto simp: register_loaded_def split: option.splits)
  then show ?thesis
  proof
    assume "snd (register_loaded col e pn ld) = e"
    then have "snd (register_loaded col e pn ld) = e\<lparr>messages := messages e, logged := logged e\<rparr>"
      by simp
    then show ?thesis by blast
  next
    assume "\<exists>n v d ow. snd (register_loaded col e pn ld) = snd (addDefinition col e n v d ow)"
    then show ?thesis using addDefinition_frame by metis
  qed
qed

lemma register_loaded_fields [simp]:
  "deprecationData (snd (register_loaded col e pn ld)) = deprecationData e"
  "majorPatchVersion (snd (register_loaded col e pn ld)) = majorPatchVersion e"
  "platform (snd (register_loaded col e pn ld)) = platform e"
  "lowestDefaultDefVersions (snd (register_loaded col e pn ld)) = lowestDefaultDefVersions e"
  "protocolMap (snd (register_loaded col e pn ld)) = protocolMap e"
  "heap (snd (register_loaded col e pn ld)) = heap e"
  using register_loaded_frame[of col e pn ld] by auto

lemma load_bundle_entry_lowest [simp]:
  "lowestDefaultDefVersions (snd (load_bundle_entry col entry e)) = lowestDefaultDefVersions e"
  by (simp add: load_bundle_entry_def Let_def split: option.splits sum.splits)

lemma for_each_preserves:
  assumes "\<And>x e. f (snd (step x e)) = f e"
  shows "f (snd (for_each step xs e)) = f e"
proof (induction xs arbitrary: e)
  case Nil
  then show ?case by simp
next
  case (Cons x xs)
  show ?case
  proof (cases "step x e")
    case (Pair res e')
    then have "f e' = f e" using assms[of x e] by simp
    with Pair Cons show ?thesis by (cases res) simp_all
  qed
qed

lemma for_each_bundle_lowest:
  "for_each (load_bundle_entry col) xs e = (res, e') \<Longrightarrow>
     lowestDefaultDefVersions e' = lowestDefaultDefVersions e"
  using for_each_preserves[of lowestDefaultDefVersions "load_bundle_entry col" xs e]
  by simp

lemma loadDefaultBundle_lowest:
  "lowestDefaultDefVersions (snd (loadDefaultBundle col e data)) =
     Some (snd (lowest_versions
                  (map (\<lambda>entry. snd (parseDefinitionFilename (fst entry))) (protocol data))
                  Map.empty))"
  by (auto simp: loadDefaultBundle_def Let_def comp_def split: sum.splits prod.splits
        dest!: for_each_bundle_lowest)

subsection \<open>Resolution\<close>

text \<open>\<open>Math.max\<close> of the keys is their maximum, or \<open>-Infinity\<close> when there is none.\<close>

lemma foldl_num_max:
  "foldl (\<lambda>acc k. num_max acc (Num k)) (Num a) ks = Num (Max (insert a (set ks)))"
proof (induction ks arbitrary: a)
  case Nil
  then show ?case by simp
next
  case (Cons k ks)
  have "Max (insert (max a k) (set ks)) = Max (insert a (insert k (set ks)))"
    by (cases "set ks = {}") (simp_all add: max.assoc)
  with Cons show ?case by simp
qed

lemma Math_max_eq:
  "Math_max ks = (if ks = [] then NegInfinity else Num (Max (set ks)))"
  by (cases ks) (simp_all add: Math_max_def foldl_num_max)

lemma resolve_name_code_IdString:
  "resolve_name_code pmap (IdString name) =
     (case pm_name pmap name of None \<Rightarrow> Inl (CodeNotKnown name) | Some code \<Rightarrow> Inr (name, code))"
  by (simp add: resolve_name_code_def)

lemma map_of_Max_key:
  assumes "versions \<noteq> []"
  shows "\<exists>d. map_of versions (Max (set (map fst versions))) = Some d"
proof -
  have "Max (set (map fst versions)) \<in> set (map fst versions)"
    using assms by (intro Max_in) auto
  then show ?thesis
    by (metis map_of_eq_None_iff not_Some_eq set_map)
qed

lemma resolveIdentifier_Latest_found:
  assumes "pm_name (protocolMap e) name = Some code"
      and "map_of (messages e) name = Some versions"
      and "versions \<noteq> []"
      and "map_of versions (Max (set (map fst versions))) = Some d"
  shows "resolveIdentifier e (IdString name) Latest =
           Inr \<lparr>r_name = name, r_code = code,
                r_version = Num (Max (set (map fst versions))),
                r_latest_version = Num (Max (set (map fst versions))),
                r_definition = d\<rparr>"
  using assms
  by (simp add: resolveIdentifier_def resolve_name_code_IdString Math_max_eq)

lemma messages_addDefinition_stores:
  assumes "compile_if_required col def = Inr d"
      and "assignDeprecationFlags e name version d = Inr flagged"
      and "map_of (messages e) name = Some versions"
      and "overwrite \<or> map_of versions version = None"
  shows "map_of (messages (snd (addDefinition col e name version def overwrite))) name =
           Some (AList.update version flagged versions)"
  using assms
  by (auto simp: addDefinition_def Let_def update_conv' split: option.splits)

lemma loaded_engine_flags:
  "assignDeprecationFlags (loaded_engine p) ''S_TEST'' 5 d = Inr (d\<lparr>readable := True, writeable := True\<rparr>)"
  "assignDeprecationFlags (loaded_engine p) ''S_OTHER'' 1 d = Inr (d\<lparr>readable := True, writeable := True\<rparr>)"
  by (simp_all add: assignDeprecationFlags_loaded[OF loaded_engine_fields(5)]
        deprecation_entry_def example_table_def)

lemma registry_engine_fields:
  "messages registry_engine =
     [(''S_TEST'', [(5, (example_compiled ''five'')\<lparr>readable := True, writeable := True\<rparr>)]),
      (''S_OTHER'', [(1, (example_compiled ''other'')\<lparr>readable := True, writeable := True\<rparr>)])]"
  "protocolMap registry_engine = example_map"
  "deprecationData registry_engine = Some example_table"
  by (simp_all add: registry_engine_def addDefinition_def example_compile_if_required
        loaded_engine_fields loaded_engine_flags)

text \<open>
  Claim C3, as the code has it. The name and the code are resolved. Without a table of
  versions for the name the call fails with the not-found error. With a table and a
  requested number that the table does not have, the call fails with the outdated error
  exactly when the table is not empty, its greatest key is not 0, the requested number
  is not 0 and it is below the greatest key; otherwise it fails with the not-found error.
  With the default request the call fails (not found) only on an empty table.
\<close>

theorem resolveIdentifier_not_found:
  assumes "resolve_name_code (protocolMap e) identifier = Inr (name, code)"
  shows "(map_of (messages e) name = None \<longrightarrow>
            resolveIdentifier e identifier dv = Inl (NoDefinitionFound name code dv))
       \<and> (\<forall>versions. map_of (messages e) name = Some versions \<longrightarrow>
            (\<forall>v. dv = Exact v \<and> map_of versions v = None \<longrightarrow>
               resolveIdentifier e identifier dv =
                 (if versions \<noteq> [] \<and> Max (set (map fst versions)) \<noteq> 0 \<and> v \<noteq> 0
                     \<and> v < Max (set (map fst versions))
                  then Inl (VersionOutdated (Num v) name code)
                  else Inl (NoDefinitionFound name code dv)))
          \<and> (dv = Latest \<and> versions = [] \<longrightarrow>
               resolveIdentifier e identifier dv = Inl (NoDefinitionFound name code dv))
          \<and> (dv = Latest \<and> versions \<noteq> [] \<longrightarrow>
               (\<exists>r. resolveIdentifier e identifier dv = Inr r)))"
proof (intro conjI allI impI)
  show "resolveIdentifier e identifier dv = Inl (NoDefinitionFound name code dv)"
    if "map_of (messages e) name = None"
    using assms that by (simp add: resolveIdentifier_def)
next
  fix versions v
  assume m: "map_of (messages e) name = Some versions"
     and h: "dv = Exact v \<and> map_of versions v = None"
  show "resolveIdentifier e identifier dv =
                 (if versions \<noteq> [] \<and> Max (set (map fst versions)) \<noteq> 0 \<and> v \<noteq> 0
                     \<and> v < Max (set (map fst versions))
                  then Inl (VersionOutdated (Num v) name code)
                  else Inl (NoDefinitionFound name code dv))"
    using assms m h by (auto simp: resolveIdentifier_def Math_max_eq)
next
  fix versions
  assume m: "map_of (messages e) name = Some versions"
  show "resolveIdentifier e identifier dv = Inl (NoDefinitionFound name code dv)"
    if "dv = Latest \<and> versions = []"
    using assms m that by (simp add: resolveIdentifier_def Math_max_eq)
  show "\<exists>r. resolveIdentifier e identifier dv = Inr r"
    if h: "dv = Latest \<and> versions \<noteq> []"
  proof -
    from h map_of_Max_key obtain d
      where "map_of versions (Max (set (map fst versions))) = Some d" by blast
    with assms m h show ?thesis
      by (simp add: resolveIdentifier_def Math_max_eq)
  qed
qed

text \<open>On the example registry, whose only version of \<open>S_TEST\<close> is 5: version 3 is outdated,
  version 7 is not found.\<close>

theorem resolveIdentifier_not_found_witness:
  "resolve_name_code (protocolMap registry_engine) (IdString ''S_TEST'') = Inr (''S_TEST'', 0x1234)
   \<and> resolveIdentifier registry_engine (IdString ''S_TEST'') (Exact 3) =
       Inl (VersionOutdated (Num 3) ''S_TEST'' 0x1234)
   \<and> resolveIdentifier registry_engine (IdString ''S_TEST'') (Exact 7) =
       Inl (NoDefinitionFound ''S_TEST'' 0x1234 (Exact 7))"
proof -
  have r: "resolve_name_code (protocolMap registry_engine) (IdString ''S_TEST'') = Inr (''S_TEST'', 0x1234)"
    by (simp add: registry_engine_fields resolve_name_code_def example_map_def)
  note rule = resolveIdentifier_not_found[OF r, THEN conjunct2, rule_format, THEN conjunct1, rule_format]
  have a: "resolveIdentifier registry_engine (IdString ''S_TEST'') (Exact 3) =
       Inl (VersionOutdated (Num 3) ''S_TEST'' 0x1234)"
    using rule[of _ "Exact 3" 3] by (simp add: registry_engine_fields)
  have b: "resolveIdentifier registry_engine (IdString ''S_TEST'') (Exact 7) =
       Inl (NoDefinitionFound ''S_TEST'' 0x1234 (Exact 7))"
    using rule[of _ "Exact 7" 7] by (simp add: registry_engine_fields)
  from r a b show ?thesis by simp
qed

text \<open>
  Against claim C3 as stated: version 0 is requested, it is absent and below the latest
  version 5, and the call fails with the not-found error, not with the outdated one.
\<close>

theorem version_zero_counterexample:
  "registered registry_engine ''S_TEST'' 0 = None
   \<and> registered registry_engine ''S_TEST'' 5 =
       Some ((example_compiled ''five'')\<lparr>readable := True, writeable := True\<rparr>)
   \<and> resolveIdentifier registry_engine (IdString ''S_TEST'') (Exact 0) =
       Inl (NoDefinitionFound ''S_TEST'' 0x1234 (Exact 0))
   \<and> \<not> is_Outdated (NoDefinitionFound ''S_TEST'' 0x1234 (Exact 0))"
  by (simp add: registered_def registry_engine_fields resolveIdentifier_def resolve_name_code_def
        example_map_def Math_max_def)

text \<open>
  Claim C7, as the code has it. For a name that the protocol map gives a code and whose
  table of versions is not empty, the default request succeeds with the definition at
  the greatest key, and \<open>version\<close> and \<open>latest_version\<close> are both that key. The maximum
  is taken from the registry as it is at the call: after a registration of a greater
  version the same request gives the new one.
\<close>

theorem resolveIdentifier_latest:
  assumes "pm_name (protocolMap e) name = Some code"
      and "map_of (messages e) name = Some versions"
      and "versions \<noteq> []"
  shows "(\<exists>d. map_of versions (Max (set (map fst versions))) = Some d
           \<and> resolveIdentifier e (IdString name) Latest =
               Inr \<lparr>r_name = name, r_code = code,
                    r_version = Num (Max (set (map fst versions))),
                    r_latest_version = Num (Max (set (map fst versions))),
                    r_definition = d\<rparr>)
       \<and> (\<forall>col def d v flagged.
             compile_if_required col def = Inr d
             \<and> assignDeprecationFlags e name v d = Inr flagged
             \<and> Max (set (map fst versions)) < v \<longrightarrow>
               resolveIdentifier (snd (addDefinition col e name v def False)) (IdString name) Latest =
                 Inr \<lparr>r_name = name, r_code = code, r_version = Num v,
                      r_latest_version = Num v, r_definition = flagged\<rparr>)"
proof (intro conjI allI impI)
  from map_of_Max_key[OF assms(3)] obtain d
    where d: "map_of versions (Max (set (map fst versions))) = Some d" ..
  with resolveIdentifier_Latest_found[OF assms d]
  show "\<exists>d. map_of versions (Max (set (map fst versions))) = Some d
           \<and> resolveIdentifier e (IdString name) Latest =
               Inr \<lparr>r_name = name, r_code = code,
                    r_version = Num (Max (set (map fst versions))),
                    r_latest_version = Num (Max (set (map fst versions))),
                    r_definition = d\<rparr>"
    by blast
next
  fix col :: collaborators and "def" d :: defn and v :: int and flagged :: defn
  assume h: "compile_if_required col def = Inr d
             \<and> assignDeprecationFlags e name v d = Inr flagged
             \<and> Max (set (map fst versions)) < v"
  let ?e' = "snd (addDefinition col e name v def False)"
  let ?vs' = "AList.update v flagged versions"
  have "v \<notin> set (map fst versions)"
  proof
    assume "v \<in> set (map fst versions)"
    then have "v \<le> Max (set (map fst versions))" by (intro Max_ge) auto
    with h show False by simp
  qed
  then have absent: "map_of versions v = None"
    by (simp add: map_of_eq_None_iff)
  have m: "map_of (messages ?e') name = Some ?vs'"
    using messages_addDefinition_stores[of col "def" d e name v flagged versions False] h assms(2) absent
    by simp
  have keys: "set (map fst ?vs') = insert v (set (map fst versions))"
    using dom_update[of v flagged versions] by simp
  have mx: "Max (set (map fst ?vs')) = v"
  proof -
    have "Max (insert v (set (map fst versions))) = max v (Max (set (map fst versions)))"
      using assms(3) by (intro Max_insert) auto
    also have "\<dots> = v"
      using h by (simp add: max_def)
    finally show ?thesis by (simp only: keys)
  qed
  have ne: "?vs' \<noteq> []"
    using keys by auto
  have found: "map_of ?vs' (Max (set (map fst ?vs'))) = Some flagged"
    by (simp only: mx) (simp add: update_conv')
  have pm: "pm_name (protocolMap ?e') name = Some code"
    using assms(1) by simp
  show "resolveIdentifier ?e' (IdString name) Latest =
                 Inr \<lparr>r_name = name, r_code = code, r_version = Num v,
                      r_latest_version = Num v, r_definition = flagged\<rparr>"
    using resolveIdentifier_Latest_found[OF pm m ne found] by (simp only: mx)
qed

text \<open>On the example registry: version 5 first, and version 8 once it is registered.\<close>

theorem resolveIdentifier_latest_witness:
  "pm_name (protocolMap registry_engine) ''S_TEST'' = Some 0x1234
   \<and> resolveIdentifier registry_engine (IdString ''S_TEST'') Latest =
       Inr \<lparr>r_name = ''S_TEST'', r_code = 0x1234, r_version = Num 5, r_latest_version = Num 5,
            r_definition = (example_compiled ''five'')\<lparr>readable := True, writeable := True\<rparr>\<rparr>
   \<and> resolveIdentifier
        (snd (addDefinition example_col registry_engine ''S_TEST'' 8 (example_def ''eight'') False))
        (IdString ''S_TEST'') Latest =
       Inr \<lparr>r_name = ''S_TEST'', r_code = 0x1234, r_version = Num 8, r_latest_version = Num 8,
            r_definition = (example_compiled ''eight'')\<lparr>readable := True, writeable := True\<rparr>\<rparr>"
proof -
  have p: "pm_name (protocolMap registry_engine) ''S_TEST'' = Some 0x1234"
    by (simp add: registry_engine_fields example_map_def)
  have m: "map_of (messages registry_engine) ''S_TEST'' =
             Some [(5, (example_compiled ''five'')\<lparr>readable := True, writeable := True\<rparr>)]"
    by (simp add: registry_engine_fields)
  note rule = resolveIdentifier_latest[OF p m]
  have a: "resolveIdentifier registry_engine (IdString ''S_TEST'') Latest =
       Inr \<lparr>r_name = ''S_TEST'', r_code = 0x1234, r_version = Num 5, r_latest_version = Num 5,
            r_definition = (example_compiled ''five'')\<lparr>readable := True, writeable := True\<rparr>\<rparr>"
    using rule by simp
  have f: "assignDeprecationFlags registry_engine ''S_TEST'' 8 (example_compiled ''eight'') =
             Inr ((example_compiled ''eight'')\<lparr>readable := True, writeable := True\<rparr>)"
    by (simp add: assignDeprecationFlags_loaded[OF registry_engine_fields(3)]
          deprecation_entry_def example_table_def)
  have b: "resolveIdentifier
        (snd (addDefinition example_col registry_engine ''S_TEST'' 8 (example_def ''eight'') False))
        (IdString ''S_TEST'') Latest =
       Inr \<lparr>r_name = ''S_TEST'', r_code = 0x1234, r_version = Num 8, r_latest_version = Num 8,
            r_definition = (example_compiled ''eight'')\<lparr>readable := True, writeable := True\<rparr>\<rparr>"
    using rule[THEN conjunct2, rule_format, of example_col "example_def ''eight''"
                 "example_compiled ''eight''" 8] f
    by (simp add: example_compile_if_required)
  from p a b show ?thesis by simp
qed

text \<open>
  Against claim C7 as stated: \<open>S_OTHER\<close> has a registered version, the protocol map does
  not know the name, and the request fails.
\<close>

theorem unmapped_name_counterexample:
  "registered registry_engine ''S_OTHER'' 1 =
       Some ((example_compiled ''other'')\<lparr>readable := True, writeable := True\<rparr>)
   \<and> resolveIdentifier registry_engine (IdString ''S_OTHER'') Latest = Inl (CodeNotKnown ''S_OTHER'')"
  by (simp add: registered_def registry_engine_fields resolveIdentifier_def resolve_name_code_def
        example_map_def)

subsection \<open>Loading\<close>

text \<open>
  The table of lowest bundled versions after the \<open>forEach\<close>, for a name that
  \<open>Object.prototype\<close> has no member for: the name has an entry when a file of the bundle
  has the name, and the entry is the version of one of these files (not always the least
  one: an entry that is 0 is replaced by the next version).
\<close>

lemma lowest_get_ordinary: "ordinary_name name \<Longrightarrow> lowest_get table name = table name"
  by (simp add: lowest_get_def ordinary_name_def split: option.splits)

lemma lowest_set_apply:
  "ordinary_name name \<Longrightarrow>
     lowest_set table n entry name = (if n = name then Some entry else table name)"
  by (auto simp: lowest_set_def ordinary_name_def)

lemma lowest_versions_entry:
  assumes "lowest_versions ds low = (Inr (), low')"
      and "ordinary_name name"
      and "low name = None \<or> (\<exists>l. low name = Some (Version l))"
  shows "(low' name = None \<longrightarrow>
            low name = None
            \<and> map pn_version (filter (\<lambda>p. pn_name p = name) (List.map_filter (\<lambda>d. d) ds)) = [])
       \<and> (\<forall>entry. low' name = Some entry \<longrightarrow>
            (\<exists>l. entry = Version l
               \<and> (low name = Some (Version l)
                    \<or> l \<in> set (map pn_version
                                 (filter (\<lambda>p. pn_name p = name) (List.map_filter (\<lambda>d. d) ds))))))"
  using assms
proof (induction ds low rule: lowest_versions.induct)
  case (1 low)
  then show ?case by auto
next
  case (2 ds low)
  then show ?case by simp
next
  case (3 d ds low)
  let ?entry = "case lowest_get low (pn_name d) of
                  None \<Rightarrow> Version (pn_version d)
                | Some cur \<Rightarrow>
                    if entry_truthy cur then Math_min cur (pn_version d) else Version (pn_version d)"
  let ?low = "lowest_set low (pn_name d) ?entry"
  from "3.prems"(1) have rec: "lowest_versions ds ?low = (Inr (), low')"
    by simp
  have at: "?low name = (if pn_name d = name then Some ?entry else low name)"
    by (rule lowest_set_apply[OF "3.prems"(2)])
  have version: "\<exists>l. ?entry = Version l \<and> (l = pn_version d \<or> low name = Some (Version l))"
    if "pn_name d = name"
    using that "3.prems"(2,3)
    by (auto simp: lowest_get_ordinary min_def split: option.splits)
  have shape: "?low name = None \<or> (\<exists>l. ?low name = Some (Version l))"
    using at version "3.prems"(3) by auto
  note ih = "3.IH"[OF rec "3.prems"(2) shape]
  show ?case
  proof (cases "pn_name d = name")
    case True
    with version obtain l where l: "?entry = Version l"
        "l = pn_version d \<or> low name = Some (Version l)" by blast
    from True at l have "?low name = Some (Version l)" by simp
    with ih l True show ?thesis
      by (auto simp: map_filter_simps)
  next
    case False
    with at have "?low name = low name" by simp
    with ih False show ?thesis
      by (auto simp: map_filter_simps)
  qed
qed

lemma map_filter_map: "List.map_filter f xs = List.map_filter (\<lambda>d. d) (map f xs)"
  by (induction xs) (simp_all split: option.splits)

lemma loadDefaultBundle_ok_lowest:
  assumes "fst (loadDefaultBundle col e data) = Inr u"
  shows "fst (lowest_versions
                (map (\<lambda>entry. snd (parseDefinitionFilename (fst entry))) (protocol data))
                Map.empty) = Inr ()"
  using assms
  by (auto simp: loadDefaultBundle_def Let_def comp_def split: sum.splits prod.splits)

lemma outdated_custom_logged [simp]:
  "outdated_custom (e\<lparr>logged := l\<rparr>) pn = outdated_custom e pn"
  by (simp add: outdated_custom_def)

lemma load_custom_file_parsed:
  assumes "snd (parseDefinitionFilename file) = Some pn"
  shows "load_custom_file col defPath file e =
           (case outdated_custom e pn of
              Inl err \<Rightarrow> (Inl err, e)
            | Inr True \<Rightarrow>
                (Inr (), e\<lparr>logged := logged e @ [DebugSkippedOutdated (pn_name pn) (pn_version pn)]\<rparr>)
            | Inr False \<Rightarrow>
                (case (if pn_type pn = ''js'' then require col (path_join defPath file)
                       else defParser col (path_join defPath file) None) of
                   Inl ex \<Rightarrow> (Inl (Thrown ex), e)
                 | Inr loaded_def \<Rightarrow> register_loaded col e pn loaded_def))"
  using parseDefinitionFilename_Some(1)[OF assms]
  by (simp add: load_custom_file_def Let_def split: sum.splits bool.splits)

lemma bundle_lowest_above:
  assumes ok: "fst (loadDefaultBundle col e0 data) = Inr u"
      and ord: "ordinary_name name"
      and ne: "bundle_versions data name \<noteq> []"
  shows "\<exists>lowest low. lowestDefaultDefVersions (snd (loadDefaultBundle col e0 data)) = Some lowest
           \<and> lowest_get lowest name = Some (Version low)
           \<and> Min (set (bundle_versions data name)) \<le> low"
proof -
  let ?ds = "map (\<lambda>entry. snd (parseDefinitionFilename (fst entry))) (protocol data)"
  obtain low' where l: "lowest_versions ?ds Map.empty = (Inr (), low')"
    using loadDefaultBundle_ok_lowest[OF ok] by (cases "lowest_versions ?ds Map.empty") auto
  have bv: "bundle_versions data name =
              map pn_version (filter (\<lambda>p. pn_name p = name) (List.map_filter (\<lambda>d. d) ?ds))"
    unfolding bundle_versions_def by (subst map_filter_map) (rule refl)
  have start: "Map.empty name = None \<or> (\<exists>l. Map.empty name = Some (Version l))" by simp
  note entry = lowest_versions_entry[OF l ord start, folded bv]
  from entry ne obtain found where found: "low' name = Some found" by (cases "low' name") auto
  with entry obtain low where low: "found = Version low" "low \<in> set (bundle_versions data name)"
    by auto
  then have "Min (set (bundle_versions data name)) \<le> low" by simp
  with low found l show ?thesis
    by (simp add: loadDefaultBundle_lowest lowest_get_ordinary[OF ord])
qed

lemma example_parses:
  "parseDefinitionFilename ''S_TEST.7.def'' =
     ([], Some \<lparr>pn_name = ''S_TEST'', pn_version = 7, pn_platform = None, pn_type = ''def''\<rparr>)"
  "parseDefinitionFilename ''S_TEST.9.def'' =
     ([], Some \<lparr>pn_name = ''S_TEST'', pn_version = 9, pn_platform = None, pn_type = ''def''\<rparr>)"
  "parseDefinitionFilename ''S_TEST.5.def'' =
     ([], Some \<lparr>pn_name = ''S_TEST'', pn_version = 5, pn_platform = None, pn_type = ''def''\<rparr>)"
  "parseDefinitionFilename ''S_TEST.0.def'' =
     ([], Some \<lparr>pn_name = ''S_TEST'', pn_version = 0, pn_platform = None, pn_type = ''def''\<rparr>)"
  "parseDefinitionFilename ''readme.txt'' = ([DebugSkippingPath ''readme.txt''], None)"
  by code_simp+

lemma example_flags:
  "assignDeprecationFlags (e\<lparr>deprecationData := Some example_table\<rparr>) ''S_TEST'' 7 d =
     Inr (d\<lparr>readable := True, writeable := True\<rparr>)"
  "assignDeprecationFlags (e\<lparr>deprecationData := Some example_table\<rparr>) ''S_TEST'' 9 d =
     Inr (d\<lparr>readable := True, writeable := True\<rparr>)"
  "assignDeprecationFlags (e\<lparr>deprecationData := Some example_table\<rparr>) ''S_TEST'' 0 d =
     Inr (d\<lparr>readable := True, writeable := True\<rparr>)"
  by (simp_all add: assignDeprecationFlags_def example_table_def)

lemma example_defParser [simp]:
  "defParser example_col file data =
     Inr (Some (example_def (case data of None \<Rightarrow> file | Some text \<Rightarrow> text)))"
  "base64_utf8 example_col s = s"
  by (simp_all add: example_col_def)

lemma bundle_load:
  "loadDefaultBundle example_col (new_engine 12) example_bundle =
     (Inr (), (new_engine 12)\<lparr>
        lowestDefaultDefVersions := Some [''S_TEST'' \<mapsto> Version 7],
        deprecationData := Some example_table,
        defaultDefinitions := Some {(''S_TEST'', 7), (''S_TEST'', 9)},
        messages := [(''S_TEST'',
           [(7, (example_compiled ''seven'')\<lparr>readable := True, writeable := True\<rparr>),
            (9, (example_compiled ''nine'')\<lparr>readable := True, writeable := True\<rparr>)])],
        loaded := True\<rparr>)"
  by (simp add: loadDefaultBundle_def example_bundle_def example_parses Let_def
        load_bundle_entry_def register_loaded_def platform_truthy_def addDefinition_def
        example_compile_if_required new_engine_fields map_filter_simps
        assignDeprecationFlags_def example_table_def
        lowest_get_def lowest_set_def Object_prototype_functions_def)

lemma bundle_engine_eq:
  "bundle_engine = (new_engine 12)\<lparr>
        lowestDefaultDefVersions := Some [''S_TEST'' \<mapsto> Version 7],
        deprecationData := Some example_table,
        defaultDefinitions := Some {(''S_TEST'', 7), (''S_TEST'', 9)},
        messages := [(''S_TEST'',
           [(7, (example_compiled ''seven'')\<lparr>readable := True, writeable := True\<rparr>),
            (9, (example_compiled ''nine'')\<lparr>readable := True, writeable := True\<rparr>)])],
        loaded := True\<rparr>"
  by (simp add: bundle_engine_def bundle_load)

lemma example_bundle_versions: "bundle_versions example_bundle ''S_TEST'' = [7, 9]"
  by (simp add: bundle_versions_def example_bundle_def example_parses map_filter_simps)

text \<open>
  A file of the custom directory whose name parses, with a version that is not 0 and
  below the version that a read of the table of lowest bundled versions finds for its
  name, is skipped: the loop body returns normally, and the engine differs from the one
  before by the one log entry.
\<close>

lemma stale_custom_file_skipped:
  assumes "snd (parseDefinitionFilename file) = Some pn"
      and "lowestDefaultDefVersions e = Some lowest"
      and "lowest_get lowest (pn_name pn) = Some (Version low)"
      and "pn_version pn \<noteq> 0"
      and "pn_version pn < low"
  shows "load_custom_file col defPath file e =
           (Inr (), e\<lparr>logged := logged e @ [DebugSkippedOutdated (pn_name pn) (pn_version pn)]\<rparr>)"
proof -
  have "0 \<le> pn_version pn" by (rule parseDefinitionFilename_Some(2)[OF assms(1)])
  with assms(2-5) have "outdated_custom e pn = Inr True"
    by (simp add: outdated_custom_def)
  then show ?thesis by (simp add: load_custom_file_parsed[OF assms(1)])
qed

text \<open>
  A file with version 0 is never outdated, whatever the table holds (also an entry 0, or
  no table): the body goes on to load the file and to register the result.
\<close>

lemma version_zero_custom_file_loaded:
  assumes "snd (parseDefinitionFilename file) = Some pn"
      and "pn_version pn = 0"
  shows "load_custom_file col defPath file e =
           (case (if pn_type pn = ''js'' then require col (path_join defPath file)
                  else defParser col (path_join defPath file) None) of
              Inl ex \<Rightarrow> (Inl (Thrown ex), e)
            | Inr loaded_def \<Rightarrow> register_loaded col e pn loaded_def)"
  using assms(2) by (simp add: load_custom_file_parsed[OF assms(1)] outdated_custom_def)

text \<open>
  The same inside the loop of \<open>loadCustomDefinitions\<close>. The loop has no handler, so the
  file is reached only when the body has thrown for no file before it; then the file
  adds its log entry and nothing else, and the loop goes on with the files after it.
\<close>

lemma for_each_append:
  "for_each step (xs @ ys) e =
     (case for_each step xs e of
        (Inl err, e') \<Rightarrow> (Inl err, e')
      | (Inr u, e') \<Rightarrow> for_each step ys e')"
  by (induction xs arbitrary: e) (auto split: prod.splits sum.splits)

lemma load_custom_file_lowest [simp]:
  "lowestDefaultDefVersions (snd (load_custom_file col defPath file e)) = lowestDefaultDefVersions e"
  by (simp add: load_custom_file_def Let_def split: option.splits sum.splits bool.splits)

lemma for_each_custom_lowest:
  "for_each (load_custom_file col defPath) xs e = (res, e') \<Longrightarrow>
     lowestDefaultDefVersions e' = lowestDefaultDefVersions e"
  using for_each_preserves[of lowestDefaultDefVersions "load_custom_file col defPath" xs e]
  by simp

lemma loadCustomDefinitions_skips_stale:
  assumes dir: "readdirSync col defPath = Inr (before @ file # after)"
      and before: "for_each (load_custom_file col defPath) before e = (Inr u, e1)"
      and parsed: "snd (parseDefinitionFilename file) = Some pn"
      and table: "lowestDefaultDefVersions e = Some lowest"
      and entry: "lowest_get lowest (pn_name pn) = Some (Version low)"
      and stale: "pn_version pn \<noteq> 0" "pn_version pn < low"
  shows "loadCustomDefinitions col e defPath =
           for_each (load_custom_file col defPath) after
             (e1\<lparr>logged := logged e1 @ [DebugSkippedOutdated (pn_name pn) (pn_version pn)]\<rparr>)"
proof -
  from for_each_custom_lowest[OF before] table
  have "lowestDefaultDefVersions e1 = Some lowest" by simp
  from stale_custom_file_skipped[OF parsed this entry stale]
  have "load_custom_file col defPath file e1 =
          (Inr (), e1\<lparr>logged := logged e1 @ [DebugSkippedOutdated (pn_name pn) (pn_version pn)]\<rparr>)" .
  with dir before show ?thesis
    by (simp add: loadCustomDefinitions_def for_each_append)
qed

text \<open>
  For a name that \<open>Object.prototype\<close> has no member for, the read of the table finds a
  version that is at least the least version the loaded bundle has for the name; so a
  custom file of such a name whose version is not 0 and below every bundled version of
  the name is skipped.
\<close>

lemma stale_below_bundle_skipped:
  assumes parsed: "snd (parseDefinitionFilename file) = Some pn"
      and ord: "ordinary_name (pn_name pn)"
      and ok: "fst (loadDefaultBundle col e0 data) = Inr u"
      and table: "lowestDefaultDefVersions e = lowestDefaultDefVersions (snd (loadDefaultBundle col e0 data))"
      and ne: "bundle_versions data (pn_name pn) \<noteq> []"
      and stale: "pn_version pn \<noteq> 0" "pn_version pn < Min (set (bundle_versions data (pn_name pn)))"
  shows "load_custom_file col defPath file e =
           (Inr (), e\<lparr>logged := logged e @ [DebugSkippedOutdated (pn_name pn) (pn_version pn)]\<rparr>)"
proof -
  from bundle_lowest_above[OF ok ord ne] obtain lowest low
    where l: "lowestDefaultDefVersions (snd (loadDefaultBundle col e0 data)) = Some lowest"
             "lowest_get lowest (pn_name pn) = Some (Version low)"
             "Min (set (bundle_versions data (pn_name pn))) \<le> low"
    by blast
  from l(1) table have t: "lowestDefaultDefVersions e = Some lowest" by simp
  from l(3) stale(2) have "pn_version pn < low" by simp
  from stale_custom_file_skipped[OF parsed t l(2) stale(1) this] show ?thesis .
qed

lemma prototype_parses:
  "parseDefinitionFilename ''constructor.7.def'' =
     ([], Some \<lparr>pn_name = ''constructor'', pn_version = 7, pn_platform = None, pn_type = ''def''\<rparr>)"
  "parseDefinitionFilename ''__proto__.7.def'' =
     ([], Some \<lparr>pn_name = ''__proto__'', pn_version = 7, pn_platform = None, pn_type = ''def''\<rparr>)"
  "parseDefinitionFilename ''constructor.5.def'' =
     ([], Some \<lparr>pn_name = ''constructor'', pn_version = 5, pn_platform = None, pn_type = ''def''\<rparr>)"
  "parseDefinitionFilename ''__proto__.5.def'' =
     ([], Some \<lparr>pn_name = ''__proto__'', pn_version = 5, pn_platform = None, pn_type = ''def''\<rparr>)"
  "parseDefinitionFilename ''valueOf.3.def'' =
     ([], Some \<lparr>pn_name = ''valueOf'', pn_version = 3, pn_platform = None, pn_type = ''def''\<rparr>)"
  "parseDefinitionFilename ''S_TEST.8.def'' =
     ([], Some \<lparr>pn_name = ''S_TEST'', pn_version = 8, pn_platform = None, pn_type = ''def''\<rparr>)"
  "parseDefinitionFilename ''notes.txt'' = ([DebugSkippingPath ''notes.txt''], None)"
  by code_simp+

lemma directory_col_fields [simp]:
  "defParser (directory_col files) file data =
     Inr (Some (example_def (case data of None \<Rightarrow> file | Some text \<Rightarrow> text)))"
  "readdirSync (directory_col files) dir = Inr files"
  "compile_if_required (directory_col files) d = compile_if_required example_col d"
  by (simp_all add: directory_col_def example_col_def compile_if_required_def)

lemma prototype_load:
  "loadDefaultBundle example_col (new_engine 12) prototype_bundle =
     (Inr (), (new_engine 12)\<lparr>
        lowestDefaultDefVersions := Some [''constructor'' \<mapsto> NotANumber],
        deprecationData := Some Map.empty,
        defaultDefinitions := Some {(''constructor'', 7), (''__proto__'', 7)},
        messages := [(''constructor'',
           [(7, (example_compiled ''seven'')\<lparr>readable := True, writeable := True\<rparr>)]),
          (''__proto__'',
           [(7, (example_compiled ''proto seven'')\<lparr>readable := True, writeable := True\<rparr>)])],
        loaded := True\<rparr>)"
  by (simp add: loadDefaultBundle_def prototype_bundle_def prototype_parses Let_def
        load_bundle_entry_def register_loaded_def platform_truthy_def addDefinition_def
        example_compile_if_required new_engine_fields map_filter_simps
        assignDeprecationFlags_def lowest_get_def lowest_set_def Object_prototype_functions_def)

lemma prototype_engine_eq:
  "prototype_engine = (new_engine 12)\<lparr>
        lowestDefaultDefVersions := Some [''constructor'' \<mapsto> NotANumber],
        deprecationData := Some Map.empty,
        defaultDefinitions := Some {(''constructor'', 7), (''__proto__'', 7)},
        messages := [(''constructor'',
           [(7, (example_compiled ''seven'')\<lparr>readable := True, writeable := True\<rparr>)]),
          (''__proto__'',
           [(7, (example_compiled ''proto seven'')\<lparr>readable := True, writeable := True\<rparr>)])],
        loaded := True\<rparr>"
  by (simp add: prototype_engine_def prototype_load)

lemma prototype_custom_load:
  "loadCustomDefinitions (directory_col prototype_directory) prototype_engine ''definitions'' =
     (Inr (), prototype_engine\<lparr>messages :=
        [(''constructor'',
           [(7, (example_compiled ''seven'')\<lparr>readable := True, writeable := True\<rparr>),
            (5, (example_compiled ''definitions/constructor.5.def'')\<lparr>readable := True, writeable := True\<rparr>)]),
         (''__proto__'',
           [(7, (example_compiled ''proto seven'')\<lparr>readable := True, writeable := True\<rparr>),
            (5, (example_compiled ''definitions/__proto__.5.def'')\<lparr>readable := True, writeable := True\<rparr>)]),
         (''valueOf'',
           [(3, (example_compiled ''definitions/valueOf.3.def'')\<lparr>readable := True, writeable := True\<rparr>)])]\<rparr>)"
  by (simp add: loadCustomDefinitions_def prototype_directory_def load_custom_file_def
        prototype_parses Let_def outdated_custom_def lowest_get_def Object_prototype_functions_def
        prototype_engine_eq path_join_def register_loaded_def platform_truthy_def addDefinition_def
        example_compile_if_required new_engine_fields assignDeprecationFlags_def)

lemma example_custom_load:
  "loadCustomDefinitions (directory_col example_directory) bundle_engine ''definitions'' =
     (Inr (), bundle_engine\<lparr>
        messages := [(''S_TEST'',
           [(7, (example_compiled ''seven'')\<lparr>readable := True, writeable := True\<rparr>),
            (9, (example_compiled ''nine'')\<lparr>readable := True, writeable := True\<rparr>),
            (0, (example_compiled ''definitions/S_TEST.0.def'')\<lparr>readable := True, writeable := True\<rparr>),
            (8, (example_compiled ''definitions/S_TEST.8.def'')\<lparr>readable := True, writeable := True\<rparr>)])],
        logged := [DebugSkippedOutdated ''S_TEST'' 5, DebugSkippingPath ''notes.txt'']\<rparr>)"
  by (simp add: loadCustomDefinitions_def example_directory_def load_custom_file_def
        example_parses prototype_parses Let_def outdated_custom_def lowest_get_def
        Object_prototype_functions_def bundle_engine_eq path_join_def
        register_loaded_def platform_truthy_def addDefinition_def
        example_compile_if_required new_engine_fields assignDeprecationFlags_def
        example_table_def)

text \<open>
  Claim C6 fails on a name that \<open>Object.prototype\<close> has a member for. The bundle holds
  version 7 of the message \<open>constructor\<close> and nothing else of that name, so 7 is its
  lowest bundled version; the custom directory holds version 5, which is not 0 and
  below 7. The \<open>forEach\<close> of \<open>loadDefaultBundle\<close> reads the entry of the name in the new
  table, finds the inherited function, and stores \<open>Math.min\<close> of the function and 7,
  which is \<open>NaN\<close>. The staleness test of \<open>loadCustomDefinitions\<close> then finds an entry
  that is not truthy: the file is not skipped, nothing is logged, and version 5 is
  registered. The same happens under the name \<open>__proto__\<close>, where the assignment to the
  table does nothing and the test compares the version with the prototype object; and
  \<open>valueOf\<close>, which the bundle does not have, is loaded as the claim says.

  The same directory layout under the name \<open>S_TEST\<close> (bundled versions 7 and 9, custom
  versions 5, 7, 0 and 8) is treated as the claim says: version 5 is skipped with its
  log entry and not registered; version 7 is not below the lowest bundled version, is
  loaded, and leaves the bundled definition in its slot; versions 0 and 8 are
  registered.
\<close>

theorem prototype_name_not_skipped:
  "fst (loadDefaultBundle example_col (new_engine 12) prototype_bundle) = Inr ()
   \<and> bundle_versions prototype_bundle ''constructor'' = [7]
   \<and> bundle_versions prototype_bundle ''__proto__'' = [7]
   \<and> registered prototype_engine ''constructor'' 7 =
       Some ((example_compiled ''seven'')\<lparr>readable := True, writeable := True\<rparr>)
   \<and> lowestDefaultDefVersions prototype_engine = Some [''constructor'' \<mapsto> NotANumber]
   \<and> map (\<lambda>file. snd (parseDefinitionFilename file)) prototype_directory =
       [Some \<lparr>pn_name = ''constructor'', pn_version = 5, pn_platform = None, pn_type = ''def''\<rparr>,
        Some \<lparr>pn_name = ''__proto__'', pn_version = 5, pn_platform = None, pn_type = ''def''\<rparr>,
        Some \<lparr>pn_name = ''valueOf'', pn_version = 3, pn_platform = None, pn_type = ''def''\<rparr>]
   \<and> fst (loadCustomDefinitions (directory_col prototype_directory) prototype_engine ''definitions'')
       = Inr ()
   \<and> logged (snd (loadCustomDefinitions (directory_col prototype_directory) prototype_engine
                     ''definitions'')) = []
   \<and> registered (snd (loadCustomDefinitions (directory_col prototype_directory) prototype_engine
                         ''definitions'')) ''constructor'' 5 =
       Some ((example_compiled ''definitions/constructor.5.def'')\<lparr>readable := True, writeable := True\<rparr>)
   \<and> registered (snd (loadCustomDefinitions (directory_col prototype_directory) prototype_engine
                         ''definitions'')) ''__proto__'' 5 =
       Some ((example_compiled ''definitions/__proto__.5.def'')\<lparr>readable := True, writeable := True\<rparr>)
   \<and> registered (snd (loadCustomDefinitions (directory_col prototype_directory) prototype_engine
                         ''definitions'')) ''valueOf'' 3 =
       Some ((example_compiled ''definitions/valueOf.3.def'')\<lparr>readable := True, writeable := True\<rparr>)
   \<and> bundle_versions example_bundle ''S_TEST'' = [7, 9]
   \<and> lowestDefaultDefVersions bundle_engine = Some [''S_TEST'' \<mapsto> Version 7]
   \<and> fst (loadCustomDefinitions (directory_col example_directory) bundle_engine ''definitions'')
       = Inr ()
   \<and> logged (snd (loadCustomDefinitions (directory_col example_directory) bundle_engine
                     ''definitions'')) =
       [DebugSkippedOutdated ''S_TEST'' 5, DebugSkippingPath ''notes.txt'']
   \<and> registered (snd (loadCustomDefinitions (directory_col example_directory) bundle_engine
                         ''definitions'')) ''S_TEST'' 5 = None
   \<and> registered (snd (loadCustomDefinitions (directory_col example_directory) bundle_engine
                         ''definitions'')) ''S_TEST'' 7 =
       Some ((example_compiled ''seven'')\<lparr>readable := True, writeable := True\<rparr>)
   \<and> registered (snd (loadCustomDefinitions (directory_col example_directory) bundle_engine
                         ''definitions'')) ''S_TEST'' 0 =
       Some ((example_compiled ''definitions/S_TEST.0.def'')\<lparr>readable := True, writeable := True\<rparr>)
   \<and> registered (snd (loadCustomDefinitions (directory_col example_directory) bundle_engine
                         ''definitions'')) ''S_TEST'' 8 =
       Some ((example_compiled ''definitions/S_TEST.8.def'')\<lparr>readable := True, writeable := True\<rparr>)"
proof -
  let ?proto = "snd (loadCustomDefinitions (directory_col prototype_directory) prototype_engine
                       ''definitions'')"
  let ?plain = "snd (loadCustomDefinitions (directory_col example_directory) bundle_engine
                       ''definitions'')"
  have loads: "fst (loadDefaultBundle example_col (new_engine 12) prototype_bundle) = Inr ()"
    by (simp add: prototype_load)
  have versions: "bundle_versions prototype_bundle ''constructor'' = [7]"
      "bundle_versions prototype_bundle ''__proto__'' = [7]"
    by (simp_all add: bundle_versions_def prototype_bundle_def prototype_parses map_filter_simps)
  have seven: "registered prototype_engine ''constructor'' 7 =
       Some ((example_compiled ''seven'')\<lparr>readable := True, writeable := True\<rparr>)"
    by (simp add: registered_def prototype_engine_eq)
  have table: "lowestDefaultDefVersions prototype_engine = Some [''constructor'' \<mapsto> NotANumber]"
    by (simp add: prototype_engine_eq)
  have parsed: "map (\<lambda>file. snd (parseDefinitionFilename file)) prototype_directory =
       [Some \<lparr>pn_name = ''constructor'', pn_version = 5, pn_platform = None, pn_type = ''def''\<rparr>,
        Some \<lparr>pn_name = ''__proto__'', pn_version = 5, pn_platform = None, pn_type = ''def''\<rparr>,
        Some \<lparr>pn_name = ''valueOf'', pn_version = 3, pn_platform = None, pn_type = ''def''\<rparr>]"
    by (simp add: prototype_directory_def prototype_parses)
  have custom: "fst (loadCustomDefinitions (directory_col prototype_directory) prototype_engine
                       ''definitions'') = Inr ()"
    by (simp add: prototype_custom_load)
  have quiet: "logged ?proto = []"
    by (simp add: prototype_custom_load) (simp add: prototype_engine_eq new_engine_fields)
  have five: "registered ?proto ''constructor'' 5 =
       Some ((example_compiled ''definitions/constructor.5.def'')\<lparr>readable := True, writeable := True\<rparr>)"
    by (simp add: prototype_custom_load registered_def)
  have proto: "registered ?proto ''__proto__'' 5 =
       Some ((example_compiled ''definitions/__proto__.5.def'')\<lparr>readable := True, writeable := True\<rparr>)"
    by (simp add: prototype_custom_load registered_def)
  have three: "registered ?proto ''valueOf'' 3 =
       Some ((example_compiled ''definitions/valueOf.3.def'')\<lparr>readable := True, writeable := True\<rparr>)"
    by (simp add: prototype_custom_load registered_def)
  have versions': "bundle_versions example_bundle ''S_TEST'' = [7, 9]"
    by (rule example_bundle_versions)
  have table': "lowestDefaultDefVersions bundle_engine = Some [''S_TEST'' \<mapsto> Version 7]"
    by (simp add: bundle_engine_eq)
  have custom': "fst (loadCustomDefinitions (directory_col example_directory) bundle_engine
                        ''definitions'') = Inr ()"
    by (simp add: example_custom_load)
  have noisy: "logged ?plain = [DebugSkippedOutdated ''S_TEST'' 5, DebugSkippingPath ''notes.txt'']"
    by (simp add: example_custom_load)
  have five': "registered ?plain ''S_TEST'' 5 = None"
    by (simp add: example_custom_load registered_def)
  have seven': "registered ?plain ''S_TEST'' 7 =
       Some ((example_compiled ''seven'')\<lparr>readable := True, writeable := True\<rparr>)"
    by (simp add: example_custom_load registered_def)
  have zero': "registered ?plain ''S_TEST'' 0 =
       Some ((example_compiled ''definitions/S_TEST.0.def'')\<lparr>readable := True, writeable := True\<rparr>)"
    by (simp add: example_custom_load registered_def)
  have eight': "registered ?plain ''S_TEST'' 8 =
       Some ((example_compiled ''definitions/S_TEST.8.def'')\<lparr>readable := True, writeable := True\<rparr>)"
    by (simp add: example_custom_load registered_def)
  from loads versions seven table parsed custom quiet five proto three
       versions' table' custom' noisy five' seven' zero' eight'
  show ?thesis by blast
qed

text \<open>
  Claim C2 fails on the bundle. \<open>loadDefaultBundle\<close> maps every key of the bundle
  through the parser and reads \<open>def.name\<close> of each result, also of the \<open>null\<close> that a
  malformed key gives: the load throws before the registry is filled, and the file
  beside the malformed one is not registered. The loop of \<open>loadCustomDefinitions\<close>
  tests the result and goes on.
\<close>

theorem malformed_bundle_entry_aborts:
  "fst (loadDefaultBundle example_col (new_engine 12)
          \<lparr>protocol = [(''S_TEST.7.def'', ''seven''), (''readme.txt'', ''text'')],
           deprecated = None\<rparr>) = Inl PropertyOfNullish
   \<and> registered (snd (loadDefaultBundle example_col (new_engine 12)
          \<lparr>protocol = [(''S_TEST.7.def'', ''seven''), (''readme.txt'', ''text'')],
           deprecated = None\<rparr>)) ''S_TEST'' 7 = None
   \<and> fst (load_custom_file example_col ''definitions'' ''readme.txt'' bundle_engine) = Inr ()"
  by (simp add: loadDefaultBundle_def example_parses Let_def registered_def new_engine_fields
        load_custom_file_def)

lemma load_custom_file_malformed:
  assumes "snd (parseDefinitionFilename file) = None"
  shows "load_custom_file col defPath file e =
           (Inr (), e\<lparr>logged := logged e @ fst (parseDefinitionFilename file)\<rparr>)"
  using assms by (simp add: load_custom_file_def Let_def)

subsection \<open>The scratch buffers\<close>

lemma scratch_ok_buffers: "buffers e' = buffers e \<Longrightarrow> scratch_ok e' = scratch_ok e"
  by (simp add: buffers_def scratch_ok_def)

lemma constructor_scratch_ok:
  assumes "constructor h l uninit rgn major minor pmap pf = Inr e"
  shows "scratch_ok e"
proof -
  have "e = \<lparr>region = rgn, majorPatchVersion = major, minorPatchVersion = minor,
                platform = (case pf of None \<Rightarrow> ''pc'' | Some p \<Rightarrow> p), protocolMap = pmap, messages = [],
                readBuffer = length h,
                readViews = map (\<lambda>i. \<lparr>dv_buffer = length h, dv_byteLength = i\<rparr>) [0..<Suc 0x10000],
                writeBuffer = Suc (length h),
                writeView = \<lparr>dv_buffer = Suc (length h), dv_byteLength = 0x10000\<rparr>,
                loaded = False,
                lowestDefaultDefVersions = None, deprecationData = None,
                defaultDefinitions = None,
                heap = h @ [allocUnsafe (uninit (length h)) 0x10000,
                            allocUnsafe (uninit (Suc (length h))) 0x10000],
                logged = l\<rparr>"
    using assms by (simp add: constructor_def Let_def split: if_splits)
  then show ?thesis
    by (simp add: scratch_ok_def heap_get_def allocUnsafe_def nth_append del: upt_Suc)
qed

lemma read_view_ok:
  assumes "scratch_ok e"
  shows "read_view e n =
           (if n \<le> 0x10000 then Some \<lparr>dv_buffer = readBuffer e, dv_byteLength = n\<rparr> else None)"
proof -
  have v: "readViews e = map (\<lambda>i. \<lparr>dv_buffer = readBuffer e, dv_byteLength = i\<rparr>) [0..<Suc 0x10000]"
    using assms by (simp add: scratch_ok_def)
  have len: "length (readViews e) = Suc 0x10000"
    by (subst v) (simp del: upt_Suc)
  show ?thesis
  proof (cases "n \<le> 0x10000")
    case True
    then have "n < Suc 0x10000" by simp
    then have "readViews e ! n = \<lparr>dv_buffer = readBuffer e, dv_byteLength = n\<rparr>"
      by (subst v) (simp del: upt_Suc)
    with True len show ?thesis by (simp add: read_view_def)
  next
    case False
    with len show ?thesis by (simp add: read_view_def)
  qed
qed

text \<open>The loaders and \<open>addDefinition\<close> leave the buffers alone.\<close>

lemma buffers_frame [simp]:
  "buffers (e\<lparr>messages := m\<rparr>) = buffers e"
  "buffers (e\<lparr>logged := l\<rparr>) = buffers e"
  "buffers (e\<lparr>lowestDefaultDefVersions := lo\<rparr>) = buffers e"
  "buffers (e\<lparr>deprecationData := dd\<rparr>) = buffers e"
  "buffers (e\<lparr>defaultDefinitions := ds\<rparr>) = buffers e"
  "buffers (e\<lparr>loaded := b\<rparr>) = buffers e"
  by (simp_all add: buffers_def)

lemma addDefinition_buffers [simp]:
  "buffers (snd (addDefinition col e name version def overwrite)) = buffers e"
  using addDefinition_frame[of col e name version "def" overwrite] by auto

lemma register_loaded_buffers [simp]:
  "buffers (snd (register_loaded col e pn ld)) = buffers e"
  using register_loaded_frame[of col e pn ld] by auto

lemma load_bundle_entry_buffers [simp]:
  "buffers (snd (load_bundle_entry col entry e)) = buffers e"
  by (simp add: load_bundle_entry_def Let_def split: option.splits sum.splits)

lemma load_custom_file_buffers [simp]:
  "buffers (snd (load_custom_file col defPath file e)) = buffers e"
  by (simp add: load_custom_file_def Let_def split: option.splits sum.splits bool.splits)

lemma for_each_bundle_buffers:
  "for_each (load_bundle_entry col) xs e = (res, e') \<Longrightarrow> buffers e' = buffers e"
  using for_each_preserves[of buffers "load_bundle_entry col" xs e]
  by simp

lemma bundle_loop_buffers:
  "buffers (snd (case for_each (load_bundle_entry col) xs e of
                   (Inl err, e') \<Rightarrow> (Inl err, e')
                 | (Inr u, e') \<Rightarrow> (Inr (), e'\<lparr>loaded := True\<rparr>))) = buffers e"
proof (cases "for_each (load_bundle_entry col) xs e")
  case (Pair res e')
  then have "buffers e' = buffers e" by (rule for_each_bundle_buffers)
  with Pair show ?thesis by (cases res) simp_all
qed

lemma loadDefaultBundle_buffers [simp]:
  "buffers (snd (loadDefaultBundle col e data)) = buffers e"
proof (cases "fst (lowest_versions
                (map (\<lambda>entry. snd (parseDefinitionFilename (fst entry))) (protocol data))
                Map.empty)")
  case (Inl err)
  then show ?thesis by (simp add: loadDefaultBundle_def Let_def comp_def)
next
  case (Inr u)
  then show ?thesis by (simp add: loadDefaultBundle_def Let_def comp_def bundle_loop_buffers)
qed

lemma loadCustomDefinitions_buffers [simp]:
  "buffers (snd (loadCustomDefinitions col e defPath)) = buffers e"
proof (cases "readdirSync col defPath")
  case (Inl ex)
  then show ?thesis by (simp add: loadCustomDefinitions_def)
next
  case (Inr defFiles)
  have "buffers (snd (for_each (load_custom_file col defPath) defFiles e)) = buffers e"
    by (rule for_each_preserves) simp
  with Inr show ?thesis by (simp add: loadCustomDefinitions_def)
qed

lemma scratch_ok_loaders:
  "scratch_ok (snd (addDefinition col e name version def overwrite)) = scratch_ok e"
  "scratch_ok (snd (loadDefaultBundle col e data)) = scratch_ok e"
  "scratch_ok (snd (loadCustomDefinitions col e defPath)) = scratch_ok e"
  by (rule scratch_ok_buffers, simp)+

text \<open>\<open>parse\<close> on an engine whose buffers are in order.\<close>

lemma heap_get_set:
  "a < length h \<Longrightarrow> heap_get (heap_set h a bytes) b = (if b = a then bytes else heap_get h b)"
  by (simp add: heap_get_def heap_set_def)

lemma length_heap_set [simp]: "length (heap_set h a bytes) = length h"
  by (simp add: heap_set_def)

lemma parse_run:
  assumes ok: "scratch_ok e"
      and rd: "readable (r_definition r)" "reader (r_definition r) = Some rd"
  shows "parse e r buffer =
           (routine_result (rd (if length buffer \<le> 0x10000 then Some buffer else None)),
            e\<lparr>heap := heap_set (heap e) (readBuffer e)
                        (take 0x10000 buffer
                         @ drop (length buffer) (heap_get (heap e) (readBuffer e)))\<rparr>)"
proof -
  let ?old = "heap_get (heap e) (readBuffer e)"
  have lo: "length ?old = 0x10000" and rb: "readBuffer e < length (heap e)"
    using ok by (simp_all add: scratch_ok_def)
  have copy: "buffer_copy buffer ?old (length buffer) = take 0x10000 buffer @ drop (length buffer) ?old"
    by (cases "length buffer \<le> 0x10000") (simp_all add: buffer_copy_def lo min_def)
  let ?e1 = "e\<lparr>heap := heap_set (heap e) (readBuffer e) (take 0x10000 buffer @ drop (length buffer) ?old)\<rparr>"
  have ok1: "scratch_ok ?e1"
    using ok by (simp add: scratch_ok_def heap_get_set lo min_def)
  have view: "map_option (view_bytes (heap ?e1)) (read_view ?e1 (length buffer)) =
                (if length buffer \<le> 0x10000 then Some buffer else None)"
    using rb by (simp add: read_view_ok[OF ok1] view_bytes_def heap_get_set)
  show ?thesis
    using rd view
    by (simp add: parse_def copy routine_result_def Let_def split: sum.splits)
qed

text \<open>\<open>write\<close> on an engine whose buffers are in order.\<close>

lemma length_overlay [simp]: "length (overlay new old) = length old"
  by (simp add: overlay_def)

lemma overlay_same_length: "length new = length old \<Longrightarrow> overlay new old = new"
  by (simp add: overlay_def)

lemma length_stamped [simp]: "length (stamped bytes len code) = length bytes"
  by (simp add: stamped_def)

lemma le16_value:
  "uint (ucast (word_of_int v :: 16 word) :: byte)
     + 256 * uint (ucast (drop_bit 8 (word_of_int v :: 16 word)) :: byte) = v mod 65536"
proof -
  let ?w = "word_of_int v :: 16 word"
  have w: "uint ?w = v mod 65536" by (simp add: uint_word_of_int)
  have lo: "uint (ucast ?w :: byte) = uint ?w mod 256"
    by (simp add: unsigned_ucast_eq take_bit_eq_mod)
  have "uint (drop_bit 8 ?w) = drop_bit 8 (take_bit 16 (uint ?w))"
    by (simp add: unsigned_drop_bit_eq)
  also have "\<dots> = uint ?w div 256"
    by (simp only: w) (simp add: drop_bit_eq_div take_bit_eq_mod)
  finally have "uint (drop_bit 8 ?w) = uint ?w div 256" .
  moreover have "uint ?w div 256 < 256"
    using uint_lt2p[of ?w] by simp
  moreover have "0 \<le> uint ?w div 256"
    by (simp add: pos_imp_zdiv_nonneg_iff)
  ultimately have hi: "uint (ucast (drop_bit 8 ?w) :: byte) = uint ?w div 256"
    by (simp add: unsigned_ucast_eq take_bit_eq_mod)
  show ?thesis
    unfolding lo hi w by presburger
qed

lemma setUint16_in_view:
  "byteOffset + 2 \<le> length bytes \<Longrightarrow>
     setUint16 bytes byteOffset v =
       Inr (bytes[byteOffset := ucast (word_of_int v :: 16 word),
                  Suc byteOffset := ucast (drop_bit 8 (word_of_int v :: 16 word))])"
  by (simp add: setUint16_def Let_def)

lemma write_message_run:
  assumes ok: "scratch_ok e"
      and wa: "writeable (r_definition r)"
      and w: "writer (r_definition r) = Some wr"
      and out: "wr (heap_get (heap e) (writeBuffer e)) (if truthy data then data else JObj [])
                  = (Inr len, bytes)"
      and pos: "0 \<le> len"
  shows "write_message uninit e r data =
           (Inr (length (heap e)),
            e\<lparr>heap := (heap e)[writeBuffer e :=
                         stamped (overlay (take 0x10000 bytes) (heap_get (heap e) (writeBuffer e)))
                           len (r_code r)]
                  @ [buffer_copy
                       (stamped (overlay (take 0x10000 bytes) (heap_get (heap e) (writeBuffer e)))
                          len (r_code r))
                       (allocUnsafe (uninit (length (heap e))) (nat len)) (nat len)]\<rparr>)"
proof -
  let ?old = "heap_get (heap e) (writeBuffer e)"
  let ?b0 = "overlay (take 0x10000 bytes) ?old"
  have lo: "length ?old = 0x10000" and wb: "writeBuffer e < length (heap e)"
    and wv: "writeView e = \<lparr>dv_buffer = writeBuffer e, dv_byteLength = 0x10000\<rparr>"
    using ok by (simp_all add: scratch_ok_def)
  have vb: "view_bytes (heap e) (writeView e) = ?old"
    by (simp add: view_bytes_def wv lo)
  have vs: "view_store (heap e) (writeView e) bytes = heap_set (heap e) (writeBuffer e) ?b0"
    by (simp add: view_store_def wv)
  let ?h1 = "heap_set (heap e) (writeBuffer e) ?b0"
  have g1: "heap_get ?h1 (writeBuffer e) = ?b0"
    using wb by (simp add: heap_get_set)
  have vb1: "view_bytes ?h1 (writeView e) = ?b0"
    by (simp add: view_bytes_def wv g1 lo)
  have s12: "(case setUint16 ?b0 0 len of
                 Inl err \<Rightarrow> Inl err
               | Inr b1 \<Rightarrow> setUint16 b1 2 (r_code r)) = Inr (stamped ?b0 len (r_code r))"
    by (simp add: setUint16_in_view lo stamped_def)
  then obtain b1 where s1: "setUint16 ?b0 0 len = Inr b1"
    and s2: "setUint16 b1 2 (r_code r) = Inr (stamped ?b0 len (r_code r))"
    by (auto split: sum.splits)
  have vs2: "view_store ?h1 (writeView e) (stamped ?b0 len (r_code r)) =
               (heap e)[writeBuffer e := stamped ?b0 len (r_code r)]"
  proof -
    have "overlay (take 0x10000 (stamped ?b0 len (r_code r))) ?b0 = stamped ?b0 len (r_code r)"
      by (simp add: overlay_same_length lo)
    then have "view_store ?h1 (writeView e) (stamped ?b0 len (r_code r)) =
                 heap_set ?h1 (writeBuffer e) (stamped ?b0 len (r_code r))"
      by (simp add: view_store_def wv g1)
    also have "\<dots> = (heap e)[writeBuffer e := stamped ?b0 len (r_code r)]"
      using wb by (simp add: heap_set_def)
    finally show ?thesis .
  qed
  have g2: "heap_get ((heap e)[writeBuffer e := stamped ?b0 len (r_code r)]) (writeBuffer e)
              = stamped ?b0 len (r_code r)"
    using wb by (simp add: heap_get_def)
  show ?thesis
    using wa w pos
    by (simp add: write_message_def vb out vs vb1 s1 s2 vs2 g2 Let_def)
qed

lemma length_view_store [simp]: "length (view_store h v bytes) = length h"
  by (simp add: view_store_def)

lemma view_store_other:
  "b \<noteq> dv_buffer v \<Longrightarrow> heap_get (view_store h v bytes) b = heap_get h b"
  by (simp add: view_store_def heap_get_def heap_set_def)

lemma length_heap_get_view_store [simp]:
  "length (heap_get (view_store h v bytes) b) = length (heap_get h b)"
  by (cases "b = dv_buffer v") (simp_all add: view_store_def heap_get_def heap_set_def)

lemma heap_get_append: "b < length h \<Longrightarrow> heap_get (h @ xs) b = heap_get h b"
  by (simp add: heap_get_def nth_append)

lemma heap_get_heap_set_other:
  "b \<noteq> a \<Longrightarrow> heap_get (heap_set h a bytes) b = heap_get h b"
  by (simp add: heap_get_def heap_set_def)

lemma write_message_other_buffers:
  assumes "dv_buffer (writeView e) \<noteq> b" and "b < length (heap e)"
  shows "heap_get (heap (snd (write_message uninit e r data))) b = heap_get (heap e) b"
  using assms
  by (auto simp: write_message_def Let_def view_store_other heap_get_append
        split: option.splits sum.splits)

lemma parse_other_buffers:
  assumes "readBuffer e \<noteq> b"
  shows "heap_get (heap (snd (parse e r buffer))) b = heap_get (heap e) b"
  using assms
  by (auto simp: parse_def Let_def heap_get_heap_set_other split: option.splits sum.splits)

lemma write_message_succeeds:
  assumes "write_message uninit e r data = (Inr a, e')"
      and "writer (r_definition r) = Some wr"
      and "wr (view_bytes (heap e) (writeView e)) (if truthy data then data else JObj [])
             = (Inr len, bytes)"
  shows "writeable (r_definition r)" and "0 \<le> len"
  using assms
  by (auto simp: write_message_def Let_def split: if_splits sum.splits)

lemma example_resolved_fields:
  "readable (r_definition example_resolved)"
  "writeable (r_definition example_resolved)"
  "reader (r_definition example_resolved) = Some example_reader"
  "writer (r_definition example_resolved) = Some example_writer"
  "r_code example_resolved = 0x1234"
  by (simp_all add: example_resolved_def example_compiled_def)

lemma resolve_example:
  "resolveIdentifier registry_engine (IdString ''S_TEST'') Latest = Inr example_resolved"
  by (simp add: resolveIdentifier_def resolve_name_code_def registry_engine_fields example_map_def
        Math_max_def example_resolved_def Let_def)

lemma new_engine_scratch_ok: "scratch_ok (new_engine p)"
  using constructor_scratch_ok[OF constructor_new_engine] .

subsection \<open>The codec invoker\<close>

text \<open>
  Claim C10. The constructor leaves the buffers in order: 65537 read views, one for each
  length from 0 to 65536, over a read buffer of 65536 bytes. On an engine whose buffers
  are in order, the view for a length exists exactly up to 65536. For a readable
  definition, \<open>parse\<close> of a buffer of at most 65536 bytes calls the reader with a view
  whose bytes are exactly the buffer, and the read buffer starts with the buffer; for a
  longer buffer the reader is called with \<open>undefined\<close>, and the read buffer holds the
  first 65536 bytes of the input only. The buffers stay in order either way.
\<close>

theorem parse_view_lengths:
  "(constructor h l uninit rgn major minor pmap pf = Inr e0 \<longrightarrow>
       scratch_ok e0 \<and> length (readViews e0) = 0x10001
       \<and> length (heap_get (heap e0) (readBuffer e0)) = 0x10000)
   \<and> (scratch_ok e \<and> readable (r_definition r) \<and> reader (r_definition r) = Some rd \<longrightarrow>
       (\<forall>n. read_view e n =
              (if n \<le> 0x10000 then Some \<lparr>dv_buffer = readBuffer e, dv_byteLength = n\<rparr> else None))
       \<and> scratch_ok (snd (parse e r buffer))
       \<and> (length buffer \<le> 0x10000 \<longrightarrow>
            fst (parse e r buffer) = routine_result (rd (Some buffer))
            \<and> take (length buffer) (heap_get (heap (snd (parse e r buffer))) (readBuffer e)) = buffer)
       \<and> (0x10000 < length buffer \<longrightarrow>
            fst (parse e r buffer) = routine_result (rd None)
            \<and> heap_get (heap (snd (parse e r buffer))) (readBuffer e) = take 0x10000 buffer))"
proof (intro conjI impI allI)
  assume c: "constructor h l uninit rgn major minor pmap pf = Inr e0"
  then show ok0: "scratch_ok e0" by (rule constructor_scratch_ok)
  then have "readViews e0 = map (\<lambda>i. \<lparr>dv_buffer = readBuffer e0, dv_byteLength = i\<rparr>) [0..<Suc 0x10000]"
    by (simp add: scratch_ok_def)
  then show "length (readViews e0) = 0x10001" by (simp del: upt_Suc)
  from ok0 show "length (heap_get (heap e0) (readBuffer e0)) = 0x10000"
    by (simp add: scratch_ok_def)
next
  fix n
  assume "scratch_ok e \<and> readable (r_definition r) \<and> reader (r_definition r) = Some rd"
  then show "read_view e n =
              (if n \<le> 0x10000 then Some \<lparr>dv_buffer = readBuffer e, dv_byteLength = n\<rparr> else None)"
    by (simp add: read_view_ok)
next
  assume h: "scratch_ok e \<and> readable (r_definition r) \<and> reader (r_definition r) = Some rd"
  then have ok: "scratch_ok e" and rd: "readable (r_definition r)" "reader (r_definition r) = Some rd"
    by simp_all
  note run = parse_run[OF ok rd, of buffer]
  have lo: "length (heap_get (heap e) (readBuffer e)) = 0x10000" and rb: "readBuffer e < length (heap e)"
    using ok by (simp_all add: scratch_ok_def)
  show "scratch_ok (snd (parse e r buffer))"
    using ok by (simp add: run scratch_ok_def heap_get_set lo min_def)
  show "fst (parse e r buffer) = routine_result (rd (Some buffer))"
    if "length buffer \<le> 0x10000"
    using that by (simp add: run)
  show "take (length buffer) (heap_get (heap (snd (parse e r buffer))) (readBuffer e)) = buffer"
    if "length buffer \<le> 0x10000"
    using that rb by (simp add: run heap_get_set)
  show "fst (parse e r buffer) = routine_result (rd None)"
    if "0x10000 < length buffer"
    using that by (simp add: run)
  show "heap_get (heap (snd (parse e r buffer))) (readBuffer e) = take 0x10000 buffer"
    if "0x10000 < length buffer"
    using that rb by (simp add: run heap_get_set lo)
qed

text \<open>On the new engine: a packet of five bytes is decoded; a buffer of 65537 bytes
  reaches the reader as \<open>undefined\<close>.\<close>

theorem parse_view_lengths_witness:
  "constructor [] [] (\<lambda>a i. 0) ''EU'' 12 0 example_map None = Inr (new_engine 12)
   \<and> scratch_ok (new_engine 12)
   \<and> readable (r_definition example_resolved)
   \<and> reader (r_definition example_resolved) = Some example_reader
   \<and> fst (parse (new_engine 12) example_resolved [5, 0, 0x34, 0x12, 7]) = Inr (JObj [(''v'', JNum 7)])
   \<and> fst (parse (new_engine 12) example_resolved (replicate 0x10001 0)) = Inl (Thrown ''no view'')"
proof -
  note c = constructor_new_engine[of 12]
  note ok = new_engine_scratch_ok[of 12]
  have a: "fst (parse (new_engine 12) example_resolved [5, 0, 0x34, 0x12, 7]) = Inr (JObj [(''v'', JNum 7)])"
    using parse_view_lengths[where e = "new_engine 12" and r = example_resolved
            and rd = example_reader and buffer = "[5, 0, 0x34, 0x12, 7]"] ok
    by (simp add: example_resolved_fields routine_result_def example_reader_def)
  have b: "fst (parse (new_engine 12) example_resolved (replicate 0x10001 0)) = Inl (Thrown ''no view'')"
    using parse_view_lengths[where e = "new_engine 12" and r = example_resolved
            and rd = example_reader and buffer = "replicate 0x10001 0"] ok
    by (simp add: example_resolved_fields routine_result_def example_reader_def)
  from c ok a b show ?thesis by (simp add: example_resolved_fields)
qed

text \<open>
  Claim C8. \<open>parse\<close> fails with the deprecation error exactly when the definition is not
  readable, and \<open>write\<close> exactly when it is not writeable (an exception of the routine
  itself comes out as \<open>Thrown\<close>); in both cases the call returns the error together
  with the engine it was given, unchanged.
\<close>

theorem deprecated_gate:
  "((\<exists>err. fst (parse e r buffer) = Inl err \<and> is_Deprecated err) = (\<not> readable (r_definition r)))
   \<and> (\<not> readable (r_definition r) \<longrightarrow>
         parse e r buffer =
           (Inl (DeprecatedForReading (r_version r) (r_name r) (r_code r)), e))
   \<and> ((\<exists>err. fst (write_message uninit e r data) = Inl err \<and> is_Deprecated err)
        = (\<not> writeable (r_definition r)))
   \<and> (\<not> writeable (r_definition r) \<longrightarrow>
         write_message uninit e r data =
           (Inl (DeprecatedForWriting (r_version r) (r_name r) (r_code r)), e))"
proof (intro conjI impI)
  show "(\<exists>err. fst (parse e r buffer) = Inl err \<and> is_Deprecated err) = (\<not> readable (r_definition r))"
    by (auto simp: parse_def Let_def split: option.splits sum.splits)
  show "parse e r buffer =
          (Inl (DeprecatedForReading (r_version r) (r_name r) (r_code r)), e)"
    if "\<not> readable (r_definition r)"
    using that by (simp add: parse_def)
  show "(\<exists>err. fst (write_message uninit e r data) = Inl err \<and> is_Deprecated err)
        = (\<not> writeable (r_definition r))"
    by (auto simp: write_message_def Let_def setUint16_def split: option.splits sum.splits if_splits)
  show "write_message uninit e r data =
          (Inl (DeprecatedForWriting (r_version r) (r_name r) (r_code r)), e)"
    if "\<not> writeable (r_definition r)"
    using that by (simp add: write_message_def)
qed

text \<open>A resolution of a deprecated definition fails both ways and leaves the engine as it
  was; a resolution of a readable one does not fail with the deprecation error.\<close>

theorem deprecated_gate_witness:
  "\<not> readable (r_definition deprecated_resolved)
   \<and> \<not> writeable (r_definition deprecated_resolved)
   \<and> parse (new_engine 12) deprecated_resolved [5, 0, 0x34, 0x12, 7] =
       (Inl (DeprecatedForReading (Num 4) ''S_TEST'' 0x1234), new_engine 12)
   \<and> write_message (\<lambda>a i. 0) (new_engine 12) deprecated_resolved (JObj [(''v'', JNum 7)]) =
       (Inl (DeprecatedForWriting (Num 4) ''S_TEST'' 0x1234), new_engine 12)
   \<and> readable (r_definition example_resolved)
   \<and> fst (parse (new_engine 12) example_resolved [5, 0, 0x34, 0x12, 7]) \<noteq>
       Inl (DeprecatedForReading (Num 5) ''S_TEST'' 0x1234)"
proof -
  have f: "\<not> readable (r_definition deprecated_resolved)" "\<not> writeable (r_definition deprecated_resolved)"
    "r_version deprecated_resolved = Num 4" "r_name deprecated_resolved = ''S_TEST''"
    "r_code deprecated_resolved = 0x1234"
    by (simp_all add: deprecated_resolved_def)
  note g = deprecated_gate[of "new_engine 12" deprecated_resolved "[5, 0, 0x34, 0x12, 7]"
              "\<lambda>a i. 0" "JObj [(''v'', JNum 7)]"]
  have a: "parse (new_engine 12) deprecated_resolved [5, 0, 0x34, 0x12, 7] =
       (Inl (DeprecatedForReading (Num 4) ''S_TEST'' 0x1234), new_engine 12)"
    using g f by simp
  have b: "write_message (\<lambda>a i. 0) (new_engine 12) deprecated_resolved (JObj [(''v'', JNum 7)]) =
       (Inl (DeprecatedForWriting (Num 4) ''S_TEST'' 0x1234), new_engine 12)"
    using g f by simp
  have c: "fst (parse (new_engine 12) example_resolved [5, 0, 0x34, 0x12, 7]) \<noteq>
       Inl (DeprecatedForReading (Num 5) ''S_TEST'' 0x1234)"
    using deprecated_gate[of "new_engine 12" example_resolved "[5, 0, 0x34, 0x12, 7]"
              "\<lambda>a i. 0" "JObj [(''v'', JNum 7)]", THEN conjunct1]
    by (auto simp: example_resolved_fields)
  from f a b c show ?thesis by (simp add: example_resolved_fields)
qed

text \<open>The header bytes and the result of a successful \<open>write\<close>.\<close>

lemma stamped_nth:
  assumes "4 \<le> length bytes"
  shows "stamped bytes len code ! 0 = ucast (word_of_int len :: 16 word)"
    and "stamped bytes len code ! 1 = ucast (drop_bit 8 (word_of_int len :: 16 word))"
    and "stamped bytes len code ! 2 = ucast (word_of_int code :: 16 word)"
    and "stamped bytes len code ! 3 = ucast (drop_bit 8 (word_of_int code :: 16 word))"
    and "4 \<le> i \<Longrightarrow> stamped bytes len code ! i = bytes ! i"
proof -
  from assms have ne: "bytes \<noteq> []" by auto
  from assms ne show "stamped bytes len code ! 0 = ucast (word_of_int len :: 16 word)"
    and "stamped bytes len code ! 1 = ucast (drop_bit 8 (word_of_int len :: 16 word))"
    and "stamped bytes len code ! 2 = ucast (word_of_int code :: 16 word)"
    and "stamped bytes len code ! 3 = ucast (drop_bit 8 (word_of_int code :: 16 word))"
    and "4 \<le> i \<Longrightarrow> stamped bytes len code ! i = bytes ! i"
    by (simp_all add: stamped_def nth_list_update)
qed

lemma buffer_copy_prefix:
  assumes "n \<le> length source" and "length target = n"
  shows "buffer_copy source target n = take n source"
  using assms by (simp add: buffer_copy_def)

lemma length_allocUnsafe [simp]: "length (allocUnsafe uninit n) = n"
  by (simp add: allocUnsafe_def)

lemma write_message_returns:
  assumes ok: "scratch_ok e"
      and w: "writer (r_definition r) = Some wr"
      and out: "wr (heap_get (heap e) (writeBuffer e)) (if truthy data then data else JObj [])
                  = (Inr len, bytes)"
      and ret: "write_message uninit e r data = (Inr a, e')"
      and bound: "len \<le> 0x10000"
  shows "0 \<le> len" and "writeable (r_definition r)" and "a = length (heap e)"
    and "e' = e\<lparr>heap := (heap e)[writeBuffer e :=
                    stamped (overlay (take 0x10000 bytes) (heap_get (heap e) (writeBuffer e)))
                      len (r_code r)]
                  @ [take (nat len)
                       (stamped (overlay (take 0x10000 bytes) (heap_get (heap e) (writeBuffer e)))
                          len (r_code r))]\<rparr>"
proof -
  let ?old = "heap_get (heap e) (writeBuffer e)"
  let ?S = "stamped (overlay (take 0x10000 bytes) ?old) len (r_code r)"
  have lo: "length ?old = 0x10000"
    and wv: "writeView e = \<lparr>dv_buffer = writeBuffer e, dv_byteLength = 0x10000\<rparr>"
    using ok by (simp_all add: scratch_ok_def)
  have vb: "view_bytes (heap e) (writeView e) = ?old"
    by (simp add: view_bytes_def wv lo)
  from write_message_succeeds[OF ret w, unfolded vb, OF out]
  show wa: "writeable (r_definition r)" and pos: "0 \<le> len" .
  have n: "nat len \<le> 0x10000" using bound by simp
  have copy: "buffer_copy ?S (allocUnsafe (uninit (length (heap e))) (nat len)) (nat len)
                = take (nat len) ?S"
    using n by (intro buffer_copy_prefix) (simp_all add: lo)
  from write_message_run[OF ok wa w out pos, of uninit] ret copy
  show "a = length (heap e)"
    and "e' = e\<lparr>heap := (heap e)[writeBuffer e := ?S] @ [take (nat len) ?S]\<rparr>"
    by simp_all
qed

lemma write_message_writer_returned:
  assumes "write_message uninit e r data = (Inr a, e')"
      and "writer (r_definition r) = Some wr"
  shows "\<exists>len bytes. wr (view_bytes (heap e) (writeView e)) (if truthy data then data else JObj [])
                        = (Inr len, bytes)"
proof (cases "wr (view_bytes (heap e) (writeView e)) (if truthy data then data else JObj [])")
  case (Pair res bytes)
  with assms show ?thesis
    by (cases res) (auto simp: write_message_def Let_def split: if_splits)
qed

lemma resolveIdentifier_registered:
  assumes "resolveIdentifier e identifier dv = Inr r"
  shows "\<exists>version. registered e (r_name r) version = Some (r_definition r)"
  using assms
  by (auto simp: resolveIdentifier_def registered_def Let_def
        split: sum.splits option.splits prod.splits jsnum.splits version_request.splits if_splits)

lemma assignDeprecationFlags_flags:
  "assignDeprecationFlags e name version d0 = Inr d \<Longrightarrow> writeable d \<longrightarrow> readable d"
  by (auto simp: assignDeprecationFlags_def Let_def split: option.splits if_splits)

lemma addDefinition_registered_cases:
  assumes "registered (snd (addDefinition col e name version def overwrite)) n v = Some d"
  shows "registered e n v = Some d \<or> (\<exists>d0. assignDeprecationFlags e name version d0 = Inr d)"
  using assms
  by (auto simp: addDefinition_def Let_def registered_def update_conv'
        split: option.splits sum.splits if_splits)

lemma le16_bytes_example:
  "(ucast (word_of_int 5 :: 16 word) :: byte) = 5"
  "(ucast (drop_bit 8 (word_of_int 5 :: 16 word)) :: byte) = 0"
  "(ucast (word_of_int 0x1234 :: 16 word) :: byte) = 0x34"
  "(ucast (drop_bit 8 (word_of_int 0x1234 :: 16 word)) :: byte) = 0x12"
  "(ucast (word_of_int 0x10000 :: 16 word) :: byte) = 0"
  "(ucast (drop_bit 8 (word_of_int 0x10000 :: 16 word)) :: byte) = 0"
  by code_simp+

lemma new_engine_buffers:
  "heap (new_engine p) = [allocUnsafe (\<lambda>i. 0) 0x10000, allocUnsafe (\<lambda>i. 0) 0x10000]"
  "writeBuffer (new_engine p) = 1" "readBuffer (new_engine p) = 0"
  by (simp_all add: new_engine_def)

lemma take5_zero: "take 5 (allocUnsafe (\<lambda>i. 0) 0x10000) = [0, 0, 0, 0, 0]"
  by (simp add: allocUnsafe_def take_map) code_simp

lemma example_write:
  "write_message (\<lambda>a i. 0) (new_engine 12) example_resolved (JObj [(''v'', JNum 7)]) =
     (Inr 2, (new_engine 12)\<lparr>heap :=
        [allocUnsafe (\<lambda>i. 0) 0x10000,
         stamped ((allocUnsafe (\<lambda>i. 0) 0x10000)[4 := 7]) 5 0x1234,
         [5, 0, 0x34, 0x12, 7]]\<rparr>)"
proof -
  have out: "example_writer (heap_get (heap (new_engine 12)) (writeBuffer (new_engine 12)))
               (if truthy (JObj [(''v'', JNum 7)]) then JObj [(''v'', JNum 7)] else JObj [])
             = (Inr 5, (allocUnsafe (\<lambda>i. 0) 0x10000)[4 := 7])"
    by (simp add: example_writer_def new_engine_buffers heap_get_def)
  have t: "take 5 (stamped ((allocUnsafe (\<lambda>i. 0) 0x10000)[4 := 7]) 5 0x1234) = [5, 0, 0x34, 0x12, 7]"
    by (simp add: stamped_def take_update_swap take5_zero le16_bytes_example)
  show ?thesis
    using write_message_run[OF new_engine_scratch_ok example_resolved_fields(2)
            example_resolved_fields(4) out, of "\<lambda>a i. 0"]
    by (simp add: new_engine_buffers heap_get_def overlay_same_length example_resolved_fields
          buffer_copy_def t)
qed

text \<open>
  Claim C5, as the code has it. On an engine whose buffers are in order, let the writer
  return the length \<open>len\<close>, at most 65536 (an end offset inside the write view), and let
  \<open>write\<close> return. Then \<open>len\<close> is not negative; the returned buffer is a new buffer of the
  heap, at an address that no buffer had before and that is neither scratch buffer; no
  other buffer than the write buffer changed; the returned buffer holds exactly the
  first \<open>len\<close> bytes of the write buffer; in the write buffer, bytes 0 and 1 read low
  byte first give \<open>len\<close> modulo 65536 (so \<open>len\<close> itself up to 65535, and 0 for 65536), bytes
  2 and 3 give the code modulo 65536, and the bytes from offset 4 on are as the writer
  left them; the buffers are still in order; and no later \<open>write\<close> or \<open>parse\<close> changes the
  returned buffer.
\<close>

theorem write_message_output:
  assumes ok: "scratch_ok e"
      and w: "writer (r_definition r) = Some wr"
      and out: "wr (heap_get (heap e) (writeBuffer e)) (if truthy data then data else JObj [])
                  = (Inr len, bytes)"
      and ret: "write_message uninit e r data = (Inr a, e')"
      and bound: "len \<le> 0x10000"
  shows "0 \<le> len
       \<and> a = length (heap e) \<and> length (heap e') = Suc (length (heap e))
       \<and> a \<noteq> writeBuffer e' \<and> a \<noteq> readBuffer e'
       \<and> (\<forall>b < length (heap e). b \<noteq> writeBuffer e \<longrightarrow> heap_get (heap e') b = heap_get (heap e) b)
       \<and> heap_get (heap e') a = take (nat len) (heap_get (heap e') (writeBuffer e'))
       \<and> length (heap_get (heap e') a) = nat len
       \<and> uint (heap_get (heap e') (writeBuffer e') ! 0)
            + 256 * uint (heap_get (heap e') (writeBuffer e') ! 1) = len mod 65536
       \<and> uint (heap_get (heap e') (writeBuffer e') ! 2)
            + 256 * uint (heap_get (heap e') (writeBuffer e') ! 3) = r_code r mod 65536
       \<and> (\<forall>i. 4 \<le> i \<and> i < 0x10000 \<longrightarrow>
             heap_get (heap e') (writeBuffer e') ! i =
               overlay (take 0x10000 bytes) (heap_get (heap e) (writeBuffer e)) ! i)
       \<and> scratch_ok e'
       \<and> (\<forall>uninit2 r2 data2.
             heap_get (heap (snd (write_message uninit2 e' r2 data2))) a = heap_get (heap e') a)
       \<and> (\<forall>r2 buffer. heap_get (heap (snd (parse e' r2 buffer))) a = heap_get (heap e') a)"
proof -
  let ?old = "heap_get (heap e) (writeBuffer e)"
  let ?S = "stamped (overlay (take 0x10000 bytes) ?old) len (r_code r)"
  have lo: "length ?old = 0x10000" and wb: "writeBuffer e < length (heap e)"
    and rb: "readBuffer e < length (heap e)" and ne: "readBuffer e \<noteq> writeBuffer e"
    and lr: "length (heap_get (heap e) (readBuffer e)) = 0x10000"
    and wv: "writeView e = \<lparr>dv_buffer = writeBuffer e, dv_byteLength = 0x10000\<rparr>"
    and rv: "readViews e = map (\<lambda>i. \<lparr>dv_buffer = readBuffer e, dv_byteLength = i\<rparr>) [0..<Suc 0x10000]"
    using ok by (simp_all add: scratch_ok_def)
  have vb: "view_bytes (heap e) (writeView e) = ?old"
    by (simp add: view_bytes_def wv lo)
  from write_message_succeeds[OF ret w, unfolded vb, OF out]
  have wa: "writeable (r_definition r)" and pos: "0 \<le> len" .
  have lS: "length ?S = 0x10000" by (simp add: lo)
  have n: "nat len \<le> 0x10000" using bound by simp
  have copy: "buffer_copy ?S (allocUnsafe (uninit (length (heap e))) (nat len)) (nat len)
                = take (nat len) ?S"
    using n by (intro buffer_copy_prefix) (simp_all add: lo)
  from write_message_run[OF ok wa w out pos, of uninit] ret copy
  have a: "a = length (heap e)"
    and e': "e' = e\<lparr>heap := (heap e)[writeBuffer e := ?S] @ [take (nat len) ?S]\<rparr>"
    by simp_all
  have gS: "heap_get (heap e') (writeBuffer e') = ?S"
    using wb by (simp add: e' heap_get_def nth_append)
  have ga: "heap_get (heap e') a = take (nat len) ?S"
    by (simp add: e' a heap_get_def nth_append)
  have c_len: "length (heap e') = Suc (length (heap e))"
    by (simp add: e')
  have c_fresh: "a \<noteq> writeBuffer e'" "a \<noteq> readBuffer e'"
    using wb rb by (simp_all add: e' a)
  have c_others: "\<forall>b < length (heap e). b \<noteq> writeBuffer e \<longrightarrow>
                    heap_get (heap e') b = heap_get (heap e) b"
    by (simp add: e' heap_get_def nth_append)
  have c_result: "heap_get (heap e') a = take (nat len) (heap_get (heap e') (writeBuffer e'))"
    by (simp only: gS ga)
  have c_size: "length (heap_get (heap e') a) = nat len"
    using n by (simp add: ga lo)
  have l4: "4 \<le> length (overlay (take 0x10000 bytes) ?old)" by (simp add: lo)
  have c_length: "uint (heap_get (heap e') (writeBuffer e') ! 0)
            + 256 * uint (heap_get (heap e') (writeBuffer e') ! 1) = len mod 65536"
    unfolding gS stamped_nth(1,2)[OF l4] by (rule le16_value)
  have c_code: "uint (heap_get (heap e') (writeBuffer e') ! 2)
            + 256 * uint (heap_get (heap e') (writeBuffer e') ! 3) = r_code r mod 65536"
    unfolding gS stamped_nth(3,4)[OF l4] by (rule le16_value)
  have c_payload: "\<forall>i. 4 \<le> i \<and> i < 0x10000 \<longrightarrow>
             heap_get (heap e') (writeBuffer e') ! i =
               overlay (take 0x10000 bytes) (heap_get (heap e) (writeBuffer e)) ! i"
    unfolding gS using stamped_nth(5)[OF l4] by blast
  have ok': "scratch_ok e'"
    using wb rb ne lr lo wv rv
    by (simp add: scratch_ok_def e' heap_get_def nth_append del: upt_Suc)
  have c_later_w: "\<forall>uninit2 r2 data2.
             heap_get (heap (snd (write_message uninit2 e' r2 data2))) a = heap_get (heap e') a"
  proof (intro allI)
    fix uninit2 r2 data2
    show "heap_get (heap (snd (write_message uninit2 e' r2 data2))) a = heap_get (heap e') a"
      using wb by (intro write_message_other_buffers) (simp_all add: e' a wv)
  qed
  have c_later_p: "\<forall>r2 buffer. heap_get (heap (snd (parse e' r2 buffer))) a = heap_get (heap e') a"
  proof (intro allI)
    fix r2 buffer
    show "heap_get (heap (snd (parse e' r2 buffer))) a = heap_get (heap e') a"
      using rb by (intro parse_other_buffers) (simp add: e' a)
  qed
  from pos a c_len c_fresh c_others c_result c_size c_length c_code c_payload ok'
       c_later_w c_later_p
  show ?thesis by blast
qed

text \<open>The example codec writes \<open>{v: 7}\<close> as the five bytes 05 00 34 12 07.\<close>

theorem write_message_output_witness:
  "scratch_ok (new_engine 12)
   \<and> writer (r_definition example_resolved) = Some example_writer
   \<and> example_writer (heap_get (heap (new_engine 12)) (writeBuffer (new_engine 12)))
        (JObj [(''v'', JNum 7)]) = (Inr 5, (allocUnsafe (\<lambda>i. 0) 0x10000)[4 := 7])
   \<and> fst (write_message (\<lambda>a i. 0) (new_engine 12) example_resolved (JObj [(''v'', JNum 7)])) = Inr 2
   \<and> heap_get (heap (snd (write_message (\<lambda>a i. 0) (new_engine 12) example_resolved
                            (JObj [(''v'', JNum 7)])))) 2 = [5, 0, 0x34, 0x12, 7]
   \<and> length (heap (new_engine 12)) = 2
   \<and> uint (heap_get (heap (snd (write_message (\<lambda>a i. 0) (new_engine 12) example_resolved
                                  (JObj [(''v'', JNum 7)])))) 1 ! 0)
      + 256 * uint (heap_get (heap (snd (write_message (\<lambda>a i. 0) (new_engine 12) example_resolved
                                  (JObj [(''v'', JNum 7)])))) 1 ! 1) = 5"
proof -
  let ?e' = "snd (write_message (\<lambda>a i. 0) (new_engine 12) example_resolved (JObj [(''v'', JNum 7)]))"
  have out: "example_writer (heap_get (heap (new_engine 12)) (writeBuffer (new_engine 12)))
               (if truthy (JObj [(''v'', JNum 7)]) then JObj [(''v'', JNum 7)] else JObj [])
             = (Inr 5, (allocUnsafe (\<lambda>i. 0) 0x10000)[4 := 7])"
    by (simp add: example_writer_def new_engine_buffers heap_get_def)
  have ret: "write_message (\<lambda>a i. 0) (new_engine 12) example_resolved (JObj [(''v'', JNum 7)])
               = (Inr 2, ?e')"
    by (simp add: example_write)
  note t = write_message_output[OF new_engine_scratch_ok example_resolved_fields(4) out ret]
  have wb: "writeBuffer ?e' = 1"
    by (simp add: example_write new_engine_buffers)
  from t have hdr: "uint (heap_get (heap ?e') 1 ! 0) + 256 * uint (heap_get (heap ?e') 1 ! 1) = 5"
    by (simp add: wb)
  have res: "heap_get (heap ?e') 2 = [5, 0, 0x34, 0x12, 7]"
    by (simp add: example_write heap_get_def)
  have first: "fst (write_message (\<lambda>a i. 0) (new_engine 12) example_resolved
                      (JObj [(''v'', JNum 7)])) = Inr 2"
    by (simp add: example_write)
  from out first hdr res show ?thesis
    by (simp add: new_engine_scratch_ok example_resolved_fields new_engine_buffers)
qed

text \<open>
  Against claim C5 as stated: a writer that fills the whole view returns 65536; the
  write succeeds with a buffer of 65536 bytes whose first two bytes are 0, not the total
  length.
\<close>

lemma take2_zero: "take 2 (allocUnsafe (\<lambda>i. 0) 0x10000) = [0, 0]"
  by (simp add: allocUnsafe_def take_map)

theorem full_packet_counterexample:
  "full_writer (heap_get (heap (new_engine 12)) (writeBuffer (new_engine 12))) (JObj [])
     = (Inr 0x10000, heap_get (heap (new_engine 12)) (writeBuffer (new_engine 12)))
   \<and> fst (write_message (\<lambda>a i. 0) (new_engine 12) full_resolved (JObj [])) = Inr 2
   \<and> length (heap_get (heap (snd (write_message (\<lambda>a i. 0) (new_engine 12) full_resolved
                                    (JObj [])))) 2) = 0x10000
   \<and> take 2 (heap_get (heap (snd (write_message (\<lambda>a i. 0) (new_engine 12) full_resolved
                                    (JObj [])))) 2) = [0, 0]"
proof -
  have f: "writeable (r_definition full_resolved)" "writer (r_definition full_resolved) = Some full_writer"
    "r_code full_resolved = 0x1234"
    by (simp_all add: full_resolved_def example_compiled_def)
  have out: "full_writer (heap_get (heap (new_engine 12)) (writeBuffer (new_engine 12)))
               (if truthy (JObj []) then JObj [] else JObj [])
             = (Inr 0x10000, allocUnsafe (\<lambda>i. 0) 0x10000)"
    by (simp add: full_writer_def new_engine_buffers heap_get_def)
  have t: "take 2 (stamped (allocUnsafe (\<lambda>i. 0) 0x10000) 0x10000 0x1234) = [0, 0]"
    by (simp add: stamped_def take_update_swap take2_zero le16_bytes_example)
  have run: "write_message (\<lambda>a i. 0) (new_engine 12) full_resolved (JObj []) =
     (Inr 2, (new_engine 12)\<lparr>heap :=
        [allocUnsafe (\<lambda>i. 0) 0x10000,
         stamped (allocUnsafe (\<lambda>i. 0) 0x10000) 0x10000 0x1234,
         stamped (allocUnsafe (\<lambda>i. 0) 0x10000) 0x10000 0x1234]\<rparr>)"
    using write_message_run[OF new_engine_scratch_ok f(1) f(2) out, of "\<lambda>a i. 0"]
    by (simp add: new_engine_buffers heap_get_def overlay_same_length f buffer_copy_def)
  show ?thesis
    by (simp add: run heap_get_def t full_writer_def)
qed

subsection \<open>Round trip\<close>

text \<open>The registry keeps \<open>flags_ok\<close>: the constructor gives it, every loader keeps it.\<close>

lemma registered_frame [simp]:
  "registered (e\<lparr>logged := l\<rparr>) n v = registered e n v"
  "registered (e\<lparr>loaded := b\<rparr>) n v = registered e n v"
  by (simp_all add: registered_def)

lemma flags_ok_frame [simp]:
  "flags_ok (e\<lparr>logged := l\<rparr>) = flags_ok e"
  "flags_ok (e\<lparr>loaded := b\<rparr>) = flags_ok e"
  by (simp_all add: flags_ok_def)

lemma flags_ok_empty: "messages e = [] \<Longrightarrow> flags_ok e"
  by (simp add: flags_ok_def registered_def)

lemma constructor_flags_ok:
  "constructor h l uninit rgn major minor pmap pf = Inr e \<Longrightarrow> flags_ok e"
  by (rule flags_ok_empty) (auto simp: constructor_def Let_def split: if_splits)

lemma addDefinition_flags_ok:
  assumes "flags_ok e"
  shows "flags_ok (snd (addDefinition col e name version def overwrite))"
  unfolding flags_ok_def
proof (intro allI impI)
  fix n v d
  assume "registered (snd (addDefinition col e name version def overwrite)) n v = Some d"
     and w: "writeable d"
  from addDefinition_registered_cases[OF this(1)]
  show "readable d"
  proof
    assume "registered e n v = Some d"
    with assms w show ?thesis by (auto simp: flags_ok_def)
  next
    assume "\<exists>d0. assignDeprecationFlags e name version d0 = Inr d"
    with w show ?thesis using assignDeprecationFlags_flags by blast
  qed
qed

lemma register_loaded_flags_ok:
  "flags_ok e \<Longrightarrow> flags_ok (snd (register_loaded col e pn ld))"
  by (simp add: register_loaded_def addDefinition_flags_ok split: option.splits)

lemma load_bundle_entry_flags_ok:
  "flags_ok e \<Longrightarrow> flags_ok (snd (load_bundle_entry col entry e))"
  by (simp add: load_bundle_entry_def Let_def register_loaded_flags_ok
        split: option.splits sum.splits)

lemma load_custom_file_flags_ok:
  "flags_ok e \<Longrightarrow> flags_ok (snd (load_custom_file col defPath file e))"
  by (simp add: load_custom_file_def Let_def register_loaded_flags_ok
        split: option.splits sum.splits bool.splits)

lemma for_each_invariant:
  assumes "\<And>x e. P e \<Longrightarrow> P (snd (step x e))" and "P e"
  shows "P (snd (for_each step xs e))"
  using assms(2)
proof (induction xs arbitrary: e)
  case Nil
  then show ?case by simp
next
  case (Cons x xs)
  show ?case
  proof (cases "step x e")
    case (Pair res e')
    with assms(1)[OF Cons.prems, of x] have "P e'" by simp
    with Pair Cons.IH[of e'] show ?thesis by (cases res) simp_all
  qed
qed

lemma loadCustomDefinitions_flags_ok:
  assumes "flags_ok e"
  shows "flags_ok (snd (loadCustomDefinitions col e defPath))"
proof (cases "readdirSync col defPath")
  case (Inl ex)
  with assms show ?thesis by (simp add: loadCustomDefinitions_def)
next
  case (Inr defFiles)
  have "flags_ok (snd (for_each (load_custom_file col defPath) defFiles e))"
    using assms by (intro for_each_invariant[where P = flags_ok]) (rule load_custom_file_flags_ok)
  with Inr show ?thesis by (simp add: loadCustomDefinitions_def)
qed

lemma bundle_loop_flags_ok:
  assumes "flags_ok e"
  shows "flags_ok (snd (case for_each (load_bundle_entry col) xs e of
                   (Inl err, e') \<Rightarrow> (Inl err, e')
                 | (Inr u, e') \<Rightarrow> (Inr (), e'\<lparr>loaded := True\<rparr>)))"
proof (cases "for_each (load_bundle_entry col) xs e")
  case (Pair res e')
  have "flags_ok (snd (for_each (load_bundle_entry col) xs e))"
    using assms by (intro for_each_invariant[where P = flags_ok]) (rule load_bundle_entry_flags_ok)
  with Pair show ?thesis by (cases res) simp_all
qed

lemma loadDefaultBundle_flags_ok:
  assumes "flags_ok e"
  shows "flags_ok (snd (loadDefaultBundle col e data))"
proof (cases "fst (lowest_versions
                (map (\<lambda>entry. snd (parseDefinitionFilename (fst entry))) (protocol data))
                Map.empty)")
  case (Inl err)
  with assms show ?thesis
    by (simp add: loadDefaultBundle_def Let_def comp_def flags_ok_def registered_def)
next
  case (Inr u)
  then show ?thesis
    by (simp add: loadDefaultBundle_def Let_def comp_def)
       (rule bundle_loop_flags_ok, rule flags_ok_empty, simp)
qed

text \<open>
  Claim C9. On an engine whose buffers are in order and whose registry was filled by
  registration, take a resolved identifier the resolver returned, whose reader and
  writer are inverses of each other, and a value that is an object (truthy, so that
  \<open>write\<close> passes it on as it is). If \<open>write\<close> returns a buffer, then \<open>parse\<close> of that
  buffer returns the value.
\<close>

theorem parse_write_round_trip:
  assumes ok: "scratch_ok e" and fl: "flags_ok e"
      and res: "resolveIdentifier e identifier dv = Inr r"
      and rd: "reader (r_definition r) = Some rd"
      and wr: "writer (r_definition r) = Some wr"
      and inv: "true_inverses rd wr"
      and obj: "truthy x"
      and ret: "write_message uninit e r x = (Inr a, e')"
  shows "fst (parse e' r (heap_get (heap e') a)) = Inr x"
proof -
  let ?old = "heap_get (heap e) (writeBuffer e)"
  have lo: "length ?old = 0x10000" and wb: "writeBuffer e < length (heap e)"
    and rb: "readBuffer e < length (heap e)" and ne: "readBuffer e \<noteq> writeBuffer e"
    and lr: "length (heap_get (heap e) (readBuffer e)) = 0x10000"
    and wv: "writeView e = \<lparr>dv_buffer = writeBuffer e, dv_byteLength = 0x10000\<rparr>"
    and rv: "readViews e = map (\<lambda>i. \<lparr>dv_buffer = readBuffer e, dv_byteLength = i\<rparr>) [0..<Suc 0x10000]"
    using ok by (simp_all add: scratch_ok_def)
  have vb: "view_bytes (heap e) (writeView e) = ?old"
    by (simp add: view_bytes_def wv lo)
  from write_message_writer_returned[OF ret wr] obj obtain len bytes
    where out: "wr ?old (if truthy x then x else JObj []) = (Inr len, bytes)"
    by (auto simp: vb)
  with obj have out': "wr ?old x = (Inr len, bytes)" by simp
  from inv out' have lb: "length bytes = 0x10000" and pos: "0 \<le> len"
    and n: "nat len \<le> 0x10000"
    and decode: "\<And>packet. length packet = nat len
                   \<Longrightarrow> drop 4 packet = drop 4 (take (nat len) bytes)
                   \<Longrightarrow> rd (Some packet) = Inr x"
    unfolding true_inverses_def using lo by (metis (no_types, lifting))+
  have bound: "len \<le> 0x10000" using n pos by simp
  let ?S = "stamped (overlay (take 0x10000 bytes) ?old) len (r_code r)"
  have ov: "overlay (take 0x10000 bytes) ?old = bytes"
    by (simp add: overlay_same_length lb lo)
  note wret = write_message_returns[OF ok wr out ret bound]
  have wa: "writeable (r_definition r)" by (rule wret(2))
  have e': "e' = e\<lparr>heap := (heap e)[writeBuffer e := stamped bytes len (r_code r)]
                           @ [take (nat len) (stamped bytes len (r_code r))]\<rparr>"
    using wret(4) by (simp only: ov)
  have a: "a = length (heap e)" by (rule wret(3))
  let ?packet = "take (nat len) (stamped bytes len (r_code r))"
  have pk: "heap_get (heap e') a = ?packet"
    by (simp add: e' a heap_get_def nth_append)
  have lp: "length ?packet = nat len"
    using n by (simp add: lb)
  have payload: "drop 4 ?packet = drop 4 (take (nat len) bytes)"
  proof (rule nth_equalityI)
    show "length (drop 4 ?packet) = length (drop 4 (take (nat len) bytes))"
      using n by (simp add: lb)
  next
    fix i
    assume "i < length (drop 4 ?packet)"
    then have i: "4 + i < nat len" using n by (simp add: lb)
    have "4 \<le> length bytes" by (simp add: lb)
    from stamped_nth(5)[OF this, of "4 + i" len "r_code r"]
    have "stamped bytes len (r_code r) ! (4 + i) = bytes ! (4 + i)" by simp
    with i n show "drop 4 ?packet ! i = drop 4 (take (nat len) bytes) ! i"
      by (simp add: lb)
  qed
  have ok': "scratch_ok e'"
    using wb rb ne lr lo wv rv
    by (simp add: scratch_ok_def e' heap_get_def nth_append lb del: upt_Suc)
  from resolveIdentifier_registered[OF res] fl wa have ra: "readable (r_definition r)"
    by (auto simp: flags_ok_def)
  have "fst (parse e' r ?packet) =
          routine_result (rd (if length ?packet \<le> 0x10000 then Some ?packet else None))"
    by (subst parse_run[OF ok' ra rd]) (rule fst_conv)
  also have "\<dots> = routine_result (rd (Some ?packet))"
    unfolding lp using n by simp
  also have "\<dots> = Inr x"
    by (simp add: decode[OF lp payload] routine_result_def)
  finally show ?thesis by (simp only: pk)
qed

text \<open>The example codec is such a pair, and the example registry is in order.\<close>

lemma example_true_inverses: "true_inverses example_reader example_writer"
  unfolding true_inverses_def
proof (intro allI impI)
  fix scratch x len bytes
  assume w: "example_writer scratch x = (Inr len, bytes)"
  then obtain n where x: "x = JObj [(''v'', JNum n)]" and n: "0 \<le> n" "n < 256"
    and ls: "5 \<le> length scratch" and len: "len = 5" and b: "bytes = scratch[4 := word_of_int n]"
    by (auto simp: example_writer_def split: jsval.splits list.splits prod.splits if_splits)
  have decode: "example_reader (Some packet) = Inr x"
    if p: "length packet = nat len \<and> drop 4 packet = drop 4 (take (nat len) bytes)" for packet
  proof -
    from p len have lp: "length packet = 5" by simp
    have "packet ! 4 = hd (drop 4 packet)"
      using lp by (simp add: hd_drop_conv_nth)
    also have "\<dots> = hd (drop 4 (take 5 bytes))"
      using p len by simp
    also have "\<dots> = bytes ! 4"
      using ls b by (simp add: hd_drop_conv_nth)
    also have "\<dots> = (word_of_int n :: byte)"
      using ls b by simp
    finally have "uint (packet ! 4) = n"
      using n by (simp add: uint_word_of_int)
    with lp x show ?thesis by (simp add: example_reader_def)
  qed
  from ls len b decode
  show "length bytes = length scratch \<and> 0 \<le> len \<and> nat len \<le> length scratch
          \<and> (\<forall>packet. length packet = nat len
                        \<and> drop 4 packet = drop 4 (take (nat len) bytes) \<longrightarrow>
                 example_reader (Some packet) = Inr x)"
    by simp
qed

lemma registry_engine_buffers: "buffers registry_engine = buffers (new_engine 12)"
  by (simp add: registry_engine_def loaded_engine_def)

lemma registry_engine_ok: "scratch_ok registry_engine" "flags_ok registry_engine"
proof -
  show "scratch_ok registry_engine"
    using scratch_ok_buffers[OF registry_engine_buffers] new_engine_scratch_ok by simp
  have "flags_ok (new_engine 12)"
    using constructor_flags_ok[OF constructor_new_engine] .
  then show "flags_ok registry_engine"
    unfolding registry_engine_def loaded_engine_def
    by (intro addDefinition_flags_ok loadDefaultBundle_flags_ok)
qed

lemma registry_engine_heap:
  "heap registry_engine = [allocUnsafe (\<lambda>i. 0) 0x10000, allocUnsafe (\<lambda>i. 0) 0x10000]"
  "writeBuffer registry_engine = 1"
  using registry_engine_buffers by (simp_all add: buffers_def new_engine_buffers)

text \<open>Writing \<open>{v: 7}\<close> on the example registry and parsing the result gives \<open>{v: 7}\<close>.\<close>

theorem parse_write_round_trip_witness:
  "scratch_ok registry_engine \<and> flags_ok registry_engine
   \<and> resolveIdentifier registry_engine (IdString ''S_TEST'') Latest = Inr example_resolved
   \<and> true_inverses example_reader example_writer
   \<and> fst (write_message (\<lambda>a i. 0) registry_engine example_resolved (JObj [(''v'', JNum 7)])) = Inr 2
   \<and> fst (parse (snd (write_message (\<lambda>a i. 0) registry_engine example_resolved
                        (JObj [(''v'', JNum 7)])))
             example_resolved
             (heap_get (heap (snd (write_message (\<lambda>a i. 0) registry_engine example_resolved
                                     (JObj [(''v'', JNum 7)])))) 2))
       = Inr (JObj [(''v'', JNum 7)])"
proof -
  let ?x = "JObj [(''v'', JNum 7)]"
  let ?e' = "snd (write_message (\<lambda>a i. 0) registry_engine example_resolved ?x)"
  have out: "example_writer (heap_get (heap registry_engine) (writeBuffer registry_engine))
               (if truthy ?x then ?x else JObj [])
             = (Inr 5, (allocUnsafe (\<lambda>i. 0) 0x10000)[4 := 7])"
    by (simp add: example_writer_def registry_engine_heap heap_get_def)
  from write_message_run[OF registry_engine_ok(1) example_resolved_fields(2)
         example_resolved_fields(4) out, of "\<lambda>a i. 0"]
  have first: "fst (write_message (\<lambda>a i. 0) registry_engine example_resolved ?x) = Inr 2"
    by (simp add: registry_engine_heap)
  then have ret: "write_message (\<lambda>a i. 0) registry_engine example_resolved ?x = (Inr 2, ?e')"
    by (metis prod.collapse)
  have trip: "fst (parse ?e' example_resolved (heap_get (heap ?e') 2)) = Inr ?x"
    by (rule parse_write_round_trip[OF registry_engine_ok resolve_example
          example_resolved_fields(3) example_resolved_fields(4) example_true_inverses _ ret])
       simp
  from registry_engine_ok resolve_example example_true_inverses first trip
  show ?thesis by simp
qed

end
